theory Spec2Isabelle
  imports Main
begin

section \<open>JavaScript numbers as the components use them\<close>

text \<open>
  \<^verbatim>\<open>parseInt\<close> yields an integer or \<^verbatim>\<open>NaN\<close>. Every comparison with \<^verbatim>\<open>NaN\<close> is
  false, \<^verbatim>\<open>NaN === NaN\<close> included, and arithmetic on \<^verbatim>\<open>NaN\<close> gives \<^verbatim>\<open>NaN\<close>.
  Integers are taken unbounded: the step numbers and date components of this program
  stay far inside the range where a JavaScript number is exact.
\<close>

datatype num = NaN | Num int

fun num_lt :: "num \<Rightarrow> num \<Rightarrow> bool" where
  "num_lt (Num a) (Num b) = (a < b)"
| "num_lt _ _ = False"

fun num_gt :: "num \<Rightarrow> num \<Rightarrow> bool" where
  "num_gt (Num a) (Num b) = (a > b)"
| "num_gt _ _ = False"

fun num_eq :: "num \<Rightarrow> num \<Rightarrow> bool" where
  "num_eq (Num a) (Num b) = (a = b)"
| "num_eq _ _ = False"

fun num_add :: "num \<Rightarrow> int \<Rightarrow> num" where
  "num_add (Num a) k = Num (a + k)"
| "num_add NaN k = NaN"

text \<open>\<^verbatim>\<open>x || 1\<close> on a number: \<^verbatim>\<open>NaN\<close> and \<^verbatim>\<open>0\<close> are falsy.\<close>

fun num_or_1 :: "num \<Rightarrow> num" where
  "num_or_1 NaN = Num 1"
| "num_or_1 (Num a) = (if a = 0 then Num 1 else Num a)"

section \<open>The step sequencer (stepper.js)\<close>

text \<open>
  A step element carries \<^verbatim>\<open>data-step-number\<close> (read through \<^verbatim>\<open>parseInt\<close> on every
  update, so it is kept here as the parsed number), the \<^verbatim>\<open>data-status\<close> attribute that
  \<^verbatim>\<open>updateStepStates\<close> writes, and, when it has a \<^verbatim>\<open>[data-step-trigger]\<close> child, that
  trigger's \<^verbatim>\<open>aria-current\<close> attribute. The colour classes, the check icon and the
  connector bar are functions of the same status and are not modelled.
\<close>

record step =
  step_number :: num
  data_status :: "string option"
  has_trigger :: bool
  aria_current :: "string option"

record step_content =
  content_number :: num
  shown :: bool

datatype stepper_event = StepperChange num

text \<open>
  The closure state of one initialised stepper: \<^verbatim>\<open>steps\<close>, \<^verbatim>\<open>stepContents\<close>,
  \<^verbatim>\<open>currentStep\<close>, the container's \<^verbatim>\<open>data-current-step\<close> attribute (the decimal
  rendering of the number stored here) and the \<^verbatim>\<open>stepper:change\<close> events dispatched on
  the container so far, oldest first.
\<close>

record stepper =
  steps :: "step list"
  stepContents :: "step_content list"
  currentStep :: num
  data_currentStep :: "num option"
  dispatched :: "stepper_event list"

definition step_status :: "num \<Rightarrow> num \<Rightarrow> string" where
  "step_status stepNumber cur =
     (if num_lt stepNumber cur then ''completed''
      else if num_eq stepNumber cur then ''active''
      else ''incomplete'')"

definition update_step :: "num \<Rightarrow> step \<Rightarrow> step" where
  "update_step cur st =
     (let status = step_status (step_number st) cur in
      st\<lparr>data_status := Some status,
         aria_current :=
           (if has_trigger st
            then Some (if status = ''active'' then ''step'' else ''false'')
            else aria_current st)\<rparr>)"

definition update_content :: "num \<Rightarrow> step_content \<Rightarrow> step_content" where
  "update_content cur c = c\<lparr>shown := num_eq (content_number c) cur\<rparr>"

definition updateStepStates :: "stepper \<Rightarrow> stepper" where
  "updateStepStates s =
     s\<lparr>steps := map (update_step (currentStep s)) (steps s),
       stepContents := map (update_content (currentStep s)) (stepContents s),
       data_currentStep := Some (currentStep s),
       dispatched := dispatched s @ [StepperChange (currentStep s)]\<rparr>"

text \<open>
  \<^verbatim>\<open>goToStep\<close> receives the result of \<^verbatim>\<open>parseInt(stepNumber)\<close>. The guard is
  \<^verbatim>\<open>stepNumber < 1 || stepNumber > steps.length\<close>; it is false for \<^verbatim>\<open>NaN\<close>.
\<close>

definition goToStep :: "num \<Rightarrow> stepper \<Rightarrow> stepper" where
  "goToStep stepNumber s =
     (if num_lt stepNumber (Num 1) \<or> num_gt stepNumber (Num (int (length (steps s))))
      then s
      else updateStepStates (s\<lparr>currentStep := stepNumber\<rparr>))"

definition nextStep :: "stepper \<Rightarrow> stepper" where
  "nextStep s =
     (if num_lt (currentStep s) (Num (int (length (steps s))))
      then goToStep (num_add (currentStep s) 1) s
      else s)"

definition prevStep :: "stepper \<Rightarrow> stepper" where
  "prevStep s =
     (if num_gt (currentStep s) (Num 1)
      then goToStep (num_add (currentStep s) (- 1)) s
      else s)"

section \<open>Dates of the runtime (ECMA-262, Date objects)\<close>

text \<open>
  A \<^verbatim>\<open>Date\<close> holds a time value: milliseconds since 1970-01-01T00:00:00Z, or \<^verbatim>\<open>NaN\<close>
  for an invalid date. The definitions below follow the abstract operations of the
  language standard under their own names. \<open>YearFromDay\<close> is the largest \<open>y\<close> with
  \<open>DayFromYear y \<le> d\<close>, found by counting upwards from a year that is not too late.
\<close>

definition msPerDay :: int where
  "msPerDay = 86400000"

definition Day :: "int \<Rightarrow> int" where
  "Day t = t div msPerDay"

definition DayFromYear :: "int \<Rightarrow> int" where
  "DayFromYear y =
     365 * (y - 1970) + (y - 1969) div 4 - (y - 1901) div 100 + (y - 1601) div 400"

definition InLeapYear :: "int \<Rightarrow> bool" where
  "InLeapYear y = (y mod 4 = 0 \<and> (y mod 100 \<noteq> 0 \<or> y mod 400 = 0))"

lemma div_succ_ge: "0 < k \<Longrightarrow> (a::int) div k \<le> (a + 1) div k"
  by (rule zdiv_mono1) simp_all
lemma div_succ_le: "0 < k \<Longrightarrow> ((a::int) + 1) div k \<le> a div k + 1"
proof -
  assume k: "0 < k"
  then have "(a + 1) div k \<le> (a + k) div k"
    by (intro zdiv_mono1) simp_all
  also from k have "(a + k) div k = a div k + 1"
    by (simp only: div_add_self2)
  finally show ?thesis .
qed
lemma DayFromYear_step: "DayFromYear y + 365 \<le> DayFromYear (y + 1)"
proof -
  define u where "u = (y - 1901) div 4"
  define u' where "u' = (y - 1901 + 1) div 4"
  have u1: "u \<le> u'" unfolding u_def u'_def by (rule div_succ_ge) simp
  have u2: "u' \<le> u + 1" unfolding u_def u'_def by (rule div_succ_le) simp
  have h: "(y - 1901) div 100 = u div 25"
    unfolding u_def using zdiv_zmult2_eq [of 25 "y - 1901" 4] by simp
  have h': "(y + 1 - 1901) div 100 = u' div 25"
    unfolding u'_def using zdiv_zmult2_eq [of 25 "y - 1901 + 1" 4] by (simp add: algebra_simps)
  have q: "(y - 1969) div 4 = u - 17"
    unfolding u_def using div_add_self2 [of 4 "y - 1969 + 64"] by simp
  have q': "(y + 1 - 1969) div 4 = u' - 17"
    unfolding u'_def by simp
  have c: "(y - 1601) div 400 \<le> (y + 1 - 1601) div 400"
    using div_succ_ge [of 400 "y - 1601"] by (simp add: algebra_simps)
  have "u' div 25 - u div 25 \<le> u' - u"
  proof (cases "u' = u")
    case True then show ?thesis by simp
  next
    case False
    with u1 u2 have e: "u' = u + 1" by linarith
    show ?thesis unfolding e using div_succ_le [of 25 u] by simp
  qed
  with h h' q q' c show ?thesis
    unfolding DayFromYear_def by (simp add: algebra_simps)
qed

function year_search :: "int \<Rightarrow> int \<Rightarrow> int" where
  "year_search d y = (if DayFromYear (y + 1) \<le> d then year_search d (y + 1) else y)"
  by pat_completeness auto
termination
proof (relation "measure (\<lambda>(d, y). nat (d + 1 - DayFromYear (y + 1)))")
  show "wf (measure (\<lambda>(d, y). nat (d + 1 - DayFromYear (y + 1))))"
    by simp
next
  fix d y :: int
  assume "DayFromYear (y + 1) \<le> d"
  moreover have "DayFromYear (y + 1) + 365 \<le> DayFromYear (y + 1 + 1)"
    by (rule DayFromYear_step)
  ultimately show "((d, y + 1), (d, y)) \<in> measure (\<lambda>(d, y). nat (d + 1 - DayFromYear (y + 1)))"
    by simp
qed

declare year_search.simps [simp del]

definition YearFromDay :: "int \<Rightarrow> int" where
  "YearFromDay d =
     year_search d (1970 + (if 0 \<le> d then d div 366 else d div 365))"

definition YearFromTime :: "int \<Rightarrow> int" where
  "YearFromTime t = YearFromDay (Day t)"

text \<open>The number of days of the year before month \<open>m\<close> (0 is January) begins.\<close>

definition month_start :: "bool \<Rightarrow> int \<Rightarrow> int" where
  "month_start leap m =
     (let l = (if leap then 1 else 0) in
      if m = 0 then 0 else if m = 1 then 31 else if m = 2 then 59 + l
      else if m = 3 then 90 + l else if m = 4 then 120 + l else if m = 5 then 151 + l
      else if m = 6 then 181 + l else if m = 7 then 212 + l else if m = 8 then 243 + l
      else if m = 9 then 273 + l else if m = 10 then 304 + l else 334 + l)"

definition DayWithinYear :: "int \<Rightarrow> int" where
  "DayWithinYear t = Day t - DayFromYear (YearFromTime t)"

definition MonthFromTime :: "int \<Rightarrow> int" where
  "MonthFromTime t =
     (let l = (if InLeapYear (YearFromTime t) then 1 else 0); d = DayWithinYear t in
      if d < 31 then 0 else if d < 59 + l then 1 else if d < 90 + l then 2
      else if d < 120 + l then 3 else if d < 151 + l then 4 else if d < 181 + l then 5
      else if d < 212 + l then 6 else if d < 243 + l then 7 else if d < 273 + l then 8
      else if d < 304 + l then 9 else if d < 334 + l then 10 else 11)"

definition DateFromTime :: "int \<Rightarrow> int" where
  "DateFromTime t =
     DayWithinYear t - month_start (InLeapYear (YearFromTime t)) (MonthFromTime t) + 1"

definition MakeTime :: "int \<Rightarrow> int \<Rightarrow> int \<Rightarrow> int \<Rightarrow> int" where
  "MakeTime hour minute sec ms = hour * 3600000 + minute * 60000 + sec * 1000 + ms"

definition MakeDay :: "int \<Rightarrow> int \<Rightarrow> int \<Rightarrow> int" where
  "MakeDay year month date =
     (let ym = year + month div 12; mn = month mod 12 in
      DayFromYear ym + month_start (InLeapYear ym) mn + date - 1)"

definition MakeDate :: "int \<Rightarrow> int \<Rightarrow> int" where
  "MakeDate day time = day * msPerDay + time"

definition TimeClip :: "int \<Rightarrow> num" where
  "TimeClip t = (if \<bar>t\<bar> > 8640000000000000 then NaN else Num t)"

text \<open>
  \<^verbatim>\<open>Date.UTC(year, month, date, hours, minutes, seconds)\<close> on integers. A year from 0
  to 99 stands for 1900 + year.
\<close>

definition Date_UTC :: "int \<Rightarrow> int \<Rightarrow> int \<Rightarrow> int \<Rightarrow> int \<Rightarrow> int \<Rightarrow> num" where
  "Date_UTC year month date hours minutes seconds =
     (let yr = (if 0 \<le> year \<and> year \<le> 99 then 1900 + year else year) in
      TimeClip (MakeDate (MakeDay yr month date) (MakeTime hours minutes seconds 0)))"

fun getUTCFullYear :: "num \<Rightarrow> num" where
  "getUTCFullYear NaN = NaN"
| "getUTCFullYear (Num t) = Num (YearFromTime t)"

fun getUTCMonth :: "num \<Rightarrow> num" where
  "getUTCMonth NaN = NaN"
| "getUTCMonth (Num t) = Num (MonthFromTime t)"

fun getUTCDate :: "num \<Rightarrow> num" where
  "getUTCDate NaN = NaN"
| "getUTCDate (Num t) = Num (DateFromTime t)"

section \<open>The date parsers (date picker script)\<close>

text \<open>
  The two patterns are matched by hand. \<^verbatim>\<open>\d\<close> is an ASCII digit; \<^verbatim>\<open>$\<close> (no flag is
  set) matches at the very end of the input only. \<open>digits n s\<close> is \<^verbatim>\<open>(\d{n})\<close>
  at the head of \<open>s\<close>: the capture and what follows it.
\<close>

definition is_digit :: "char \<Rightarrow> bool" where
  "is_digit c = (c \<in> set ''0123456789'')"

definition digits :: "nat \<Rightarrow> string \<Rightarrow> (string \<times> string) option" where
  "digits n s =
     (if n \<le> length s \<and> list_all is_digit (take n s) then Some (take n s, drop n s)
      else None)"

text \<open>\<open>lit cs s\<close>: one character out of \<open>cs\<close> at the head of \<open>s\<close>; what follows it.\<close>

fun lit :: "string \<Rightarrow> string \<Rightarrow> string option" where
  "lit cs [] = None"
| "lit cs (c # s) = (if c \<in> set cs then Some s else None)"

text \<open>
  \<^verbatim>\<open>parseInt(s, 10)\<close> on a capture of \<^verbatim>\<open>\d\<close>'s: the decimal value of the leading
  digits, \<^verbatim>\<open>NaN\<close> when there is none. (Leading blanks and a sign, which
  \<^verbatim>\<open>parseInt\<close> also accepts, cannot stand in such a capture.)
\<close>

definition digit_val :: "char \<Rightarrow> int" where
  "digit_val c = int (of_char c) - 48"

definition parseInt10 :: "string \<Rightarrow> num" where
  "parseInt10 s =
     (let ds = takeWhile is_digit s in
      if ds = [] then NaN else Num (foldl (\<lambda>a c. 10 * a + digit_val c) 0 ds))"

text \<open>\<^verbatim>\<open>/^(\d{4})-(\d{2})-(\d{2})$/\<close>: the three captures.\<close>

definition match_date :: "string \<Rightarrow> (string \<times> string \<times> string) option" where
  "match_date s =
     (case digits 4 s of None \<Rightarrow> None | Some (p1, s1) \<Rightarrow>
      case lit ''-'' s1 of None \<Rightarrow> None | Some s2 \<Rightarrow>
      case digits 2 s2 of None \<Rightarrow> None | Some (p2, s3) \<Rightarrow>
      case lit ''-'' s3 of None \<Rightarrow> None | Some s4 \<Rightarrow>
      case digits 2 s4 of None \<Rightarrow> None | Some (p3, s5) \<Rightarrow>
      if s5 = [] then Some (p1, p2, p3) else None)"

text \<open>
  The date a parser returns when the reconstructed instant reads back as the same
  year, month and day, and \<^verbatim>\<open>null\<close> (\<open>None\<close>) otherwise.
\<close>

definition read_back :: "num \<Rightarrow> num \<Rightarrow> num \<Rightarrow> num \<Rightarrow> num option" where
  "read_back date year month day =
     (if num_eq (getUTCFullYear date) year \<and> num_eq (getUTCMonth date) month \<and>
         num_eq (getUTCDate date) day
      then Some date else None)"

fun utc :: "num \<Rightarrow> num \<Rightarrow> num \<Rightarrow> num \<Rightarrow> num \<Rightarrow> num \<Rightarrow> num" where
  "utc (Num y) (Num m) (Num d) (Num h) (Num mi) (Num s) = Date_UTC y m d h mi s"
| "utc _ _ _ _ _ _ = NaN"

definition parseISODate :: "string \<Rightarrow> num option" where
  "parseISODate isoString =
     (if isoString = [] then None
      else case match_date isoString of None \<Rightarrow> None
      | Some (p1, p2, p3) \<Rightarrow>
          (let year = parseInt10 p1;
               month = num_add (parseInt10 p2) (- 1);
               day = parseInt10 p3;
               date = utc year month day (Num 0) (Num 0) (Num 0)
           in read_back date year month day))"

text \<open>
  \<^verbatim>\<open>/^(\d{4})-(\d{2})-(\d{2})(?:[T ](\d{2}):(\d{2})(?::(\d{2}))?)?/\<close>. Both optional
  groups are greedy, and nothing is asked of what follows the match: the captures
  and the unmatched rest of the input.
\<close>

record dt_match =
  p_year :: string
  p_month :: string
  p_day :: string
  p_hour :: "string option"
  p_minute :: "string option"
  p_second :: "string option"
  unmatched :: string

definition match_time :: "string \<Rightarrow> (string \<times> string \<times> string option \<times> string) option" where
  "match_time s =
     (case lit ''T '' s of None \<Rightarrow> None | Some s1 \<Rightarrow>
      case digits 2 s1 of None \<Rightarrow> None | Some (p4, s2) \<Rightarrow>
      case lit '':'' s2 of None \<Rightarrow> None | Some s3 \<Rightarrow>
      case digits 2 s3 of None \<Rightarrow> None | Some (p5, s4) \<Rightarrow>
      (case lit '':'' s4 of None \<Rightarrow> Some (p4, p5, None, s4) | Some s5 \<Rightarrow>
       case digits 2 s5 of None \<Rightarrow> Some (p4, p5, None, s4)
       | Some (p6, s6) \<Rightarrow> Some (p4, p5, Some p6, s6)))"

definition match_datetime :: "string \<Rightarrow> dt_match option" where
  "match_datetime s =
     (case digits 4 s of None \<Rightarrow> None | Some (p1, s1) \<Rightarrow>
      case lit ''-'' s1 of None \<Rightarrow> None | Some s2 \<Rightarrow>
      case digits 2 s2 of None \<Rightarrow> None | Some (p2, s3) \<Rightarrow>
      case lit ''-'' s3 of None \<Rightarrow> None | Some s4 \<Rightarrow>
      case digits 2 s4 of None \<Rightarrow> None | Some (p3, s5) \<Rightarrow>
      (case match_time s5 of
         None \<Rightarrow> Some \<lparr>p_year = p1, p_month = p2, p_day = p3, p_hour = None,
                        p_minute = None, p_second = None, unmatched = s5\<rparr>
       | Some (p4, p5, p6, s6) \<Rightarrow>
           Some \<lparr>p_year = p1, p_month = p2, p_day = p3, p_hour = Some p4,
                 p_minute = Some p5, p_second = p6, unmatched = s6\<rparr>))"

text \<open>\<^verbatim>\<open>parts[i] ? parseInt(parts[i], 10) : 0\<close>: a capture that took part is two digits, so truthy.\<close>

fun opt_part :: "string option \<Rightarrow> num" where
  "opt_part None = Num 0"
| "opt_part (Some p) = (if p = [] then Num 0 else parseInt10 p)"

definition parseISODateTime :: "string \<Rightarrow> num option" where
  "parseISODateTime isoString =
     (if isoString = [] then None
      else case match_datetime isoString of None \<Rightarrow> None
      | Some parts \<Rightarrow>
          (let year = parseInt10 (p_year parts);
               month = num_add (parseInt10 (p_month parts)) (- 1);
               day = parseInt10 (p_day parts);
               hour = opt_part (p_hour parts);
               minute = opt_part (p_minute parts);
               second = opt_part (p_second parts);
               date = utc year month day hour minute second
           in read_back date year month day))"

section \<open>Formatting (date picker script)\<close>

text \<open>
  The locale facility is outside the program, so it is a parameter: \<open>intl tag options t\<close>
  is what \<^verbatim>\<open>new Intl.DateTimeFormat(tag, options).format(date)\<close> does for the date with
  time value \<open>t\<close>, a string or a thrown error (\<open>Inl\<close>). A formatter returns
  \<open>Inr\<close> of its string, or \<open>Inl\<close> of the error that leaves it. Its \<open>date\<close> argument is
  \<open>None\<close> for \<^verbatim>\<open>null\<close>, \<open>Some NaN\<close> for an invalid date. The \<^verbatim>\<open>console.error\<close>
  calls of the catch blocks have no effect on the result and are left out.
\<close>

datatype js_error = TypeError | RangeError | SyntaxError

record fmt_options =
  timeZone :: string
  dateStyle :: string
  fmt_hour :: "string option"
  fmt_minute :: "string option"
  fmt_second :: "string option"
  hour12 :: "bool option"

type_synonym intl = "string \<Rightarrow> fmt_options \<Rightarrow> int \<Rightarrow> js_error + string"

definition digit_char :: "nat \<Rightarrow> char" where
  "digit_char n = ''0123456789'' ! (n mod 10)"

fun dec :: "nat \<Rightarrow> string" where
  "dec n = (if n < 10 then [digit_char n] else dec (n div 10) @ [digit_char n])"

declare dec.simps [simp del]

definition int_str :: "int \<Rightarrow> string" where
  "int_str i = (if i < 0 then ''-'' @ dec (nat (- i)) else dec (nat i))"

definition padStart :: "nat \<Rightarrow> char \<Rightarrow> string \<Rightarrow> string" where
  "padStart n c s = replicate (n - length s) c @ s"

definition dateStyle_of :: "string \<Rightarrow> string" where
  "dateStyle_of format =
     (if format = ''locale-short'' then ''short''
      else if format = ''locale-long'' then ''long''
      else if format = ''locale-full'' then ''full''
      else ''medium'')"

definition date_options :: "string \<Rightarrow> fmt_options" where
  "date_options format =
     \<lparr>timeZone = ''UTC'', dateStyle = dateStyle_of format, fmt_hour = None,
      fmt_minute = None, fmt_second = None, hour12 = None\<rparr>"

definition fallbackOptions :: fmt_options where
  "fallbackOptions =
     \<lparr>timeZone = ''UTC'', dateStyle = ''medium'', fmt_hour = None,
      fmt_minute = None, fmt_second = None, hour12 = None\<rparr>"

text \<open>The last resort of the date-only formatter: the year as it prints, month and day padded to two digits.\<close>

definition manual_date :: "int \<Rightarrow> string" where
  "manual_date t =
     int_str (YearFromTime t) @ ''-'' @
     padStart 2 CHR ''0'' (int_str (MonthFromTime t + 1)) @ ''-'' @
     padStart 2 CHR ''0'' (int_str (DateFromTime t))"

definition formatDateWithIntl :: "intl \<Rightarrow> num option \<Rightarrow> string \<Rightarrow> string \<Rightarrow> js_error + string" where
  "formatDateWithIntl intl date format localeTag =
     (case date of
        None \<Rightarrow> Inr ''''
      | Some NaN \<Rightarrow> Inr ''''
      | Some (Num t) \<Rightarrow>
          (case intl localeTag (date_options format) t of
             Inr s \<Rightarrow> Inr s
           | Inl e \<Rightarrow>
               (case intl localeTag fallbackOptions t of
                  Inr s \<Rightarrow> Inr s
                | Inl fallbackError \<Rightarrow> Inr (manual_date t))))"

definition datetime_options :: "string \<Rightarrow> bool \<Rightarrow> bool \<Rightarrow> bool \<Rightarrow> fmt_options" where
  "datetime_options format withTime withSeconds with24Hours =
     (if withTime
      then \<lparr>timeZone = ''UTC'', dateStyle = dateStyle_of format,
            fmt_hour = Some ''2-digit'', fmt_minute = Some ''2-digit'',
            fmt_second = (if withSeconds then Some ''2-digit'' else None),
            hour12 = Some (\<not> with24Hours)\<rparr>
      else date_options format)"

definition iso_year :: "int \<Rightarrow> string" where
  "iso_year y =
     (if 0 \<le> y \<and> y \<le> 9999 then padStart 4 CHR ''0'' (dec (nat y))
      else (if y < 0 then ''-'' else ''+'') @ padStart 6 CHR ''0'' (dec (nat \<bar>y\<bar>)))"

definition two :: "int \<Rightarrow> string" where
  "two n = padStart 2 CHR ''0'' (dec (nat n))"

text \<open>\<^verbatim>\<open>Date.prototype.toISOString\<close>: a \<^verbatim>\<open>RangeError\<close> on an invalid date, else \<^verbatim>\<open>YYYY-MM-DDTHH:mm:ss.sssZ\<close> (six signed year digits outside 0 to 9999).\<close>

fun toISOString :: "num \<Rightarrow> js_error + string" where
  "toISOString NaN = Inl RangeError"
| "toISOString (Num t) =
     Inr (iso_year (YearFromTime t) @ ''-'' @ two (MonthFromTime t + 1) @ ''-'' @
          two (DateFromTime t) @ ''T'' @ two ((t div 3600000) mod 24) @ '':'' @
          two ((t div 60000) mod 60) @ '':'' @ two ((t div 1000) mod 60) @ ''.'' @
          padStart 3 CHR ''0'' (dec (nat (t mod 1000))) @ ''Z'')"

definition formatDateTimeWithIntl ::
    "intl \<Rightarrow> num option \<Rightarrow> string \<Rightarrow> string \<Rightarrow> bool \<Rightarrow> bool \<Rightarrow> bool \<Rightarrow> js_error + string" where
  "formatDateTimeWithIntl intl date format localeTag withTime withSeconds with24Hours =
     (case date of
        None \<Rightarrow> Inr ''''
      | Some NaN \<Rightarrow> Inr ''''
      | Some (Num t) \<Rightarrow>
          (case intl localeTag (datetime_options format withTime withSeconds with24Hours) t of
             Inr s \<Rightarrow> Inr s
           | Inl e \<Rightarrow> toISOString (Num t)))"

text \<open>
  The fallback chain as the specification words it: the requested configuration, then a
  retry with the fixed medium-style UTC configuration, then the manually composed date.
\<close>

definition two_level_fallback :: "intl \<Rightarrow> string \<Rightarrow> fmt_options \<Rightarrow> int \<Rightarrow> string" where
  "two_level_fallback intl localeTag options t =
     (case intl localeTag options t of
        Inr s \<Rightarrow> s
      | Inl _ \<Rightarrow>
          (case intl localeTag fallbackOptions t of
             Inr s \<Rightarrow> s
           | Inl _ \<Rightarrow> manual_date t))"

text \<open>Two locale facilities to test with: one that only knows the medium UTC style, one that always throws.\<close>

definition intl_medium_only :: intl where
  "intl_medium_only localeTag options t =
     (if options = fallbackOptions then Inr ''Jun 15, 2023'' else Inl RangeError)"

definition intl_unusable :: intl where
  "intl_unusable localeTag options t = Inl TypeError"

section \<open>The selection control (selectbox.js)\<close>

text \<open>
  The document is outside the program, so the part of it a control reads and writes is
  state of the model. A \<open>container\<close> is one \<^verbatim>\<open>.select-container\<close> element with its
  subtree: the \<^verbatim>\<open>data-initialized\<close> marker, which of the sub-elements the constructor
  looks up exist (the trigger button, the content element named by
  \<^verbatim>\<open>data-content-id\<close>, the \<^verbatim>\<open>.select-value\<close> element, the hidden input), the attributes
  the constructor reads, the \<^verbatim>\<open>.select-item\<close> elements of the content in document order,
  the search field (\<open>None\<close> when the content has none), the value of the hidden input,
  the listeners attached inside the subtree, and the events observed at the container,
  oldest first (every event the control dispatches bubbles, those of the hidden input
  and of the search field included).

  As the renderer emits them, every item carries \<^verbatim>\<open>data-value\<close> and a
  \<^verbatim>\<open>.select-item-text\<close> child. Colour classes, focus, the popover collaborator and the
  deferred overflow check of the pills are not modelled.
\<close>

type_synonym elem = nat

record select_item =
  data_value :: string
  data_selected :: bool
  item_text :: string

datatype display = Text string | Pills "string list"

datatype getval = Multi "string list" | Single "string option"

datatype setval = One "string option" | Many "string option list"

datatype sb_event =
    SelectboxInit
  | SelectboxChange getval "string list" "nat option"
  | SelectboxReset "string list"
  | SelectboxDestroy
  | FieldChange
  | SearchInput

datatype target = Trigger | Content | Search | ResetButton

datatype handler = ItemClick | ExternalReset

record container =
  initialized :: bool
  show_reset :: bool
  trigger_found :: bool
  content_found :: bool
  valueEl_found :: bool
  hiddenInput_found :: bool
  data_multiple :: bool
  data_showPills :: bool
  data_selectedCountText :: "string option"
  data_placeholder :: "string option"
  valueEl_content :: display
  items :: "select_item list"
  search_value :: "string option"
  hiddenInput_value :: string
  trigger_disabled :: bool
  attached :: "(nat \<times> target \<times> string) list"
  observed :: "sb_event list"

text \<open>
  The \<^verbatim>\<open>SelectBox\<close> object. \<open>selectedValues\<close> is the \<^verbatim>\<open>Set\<close>: a list without
  repetitions in insertion order, which is the order \<^verbatim>\<open>Array.from\<close> gives.
  \<open>triggerButton\<close>, \<open>content\<close>, \<open>valueEl\<close> and \<open>hiddenInput\<close> say whether the
  reference is set; \<open>itemClickHandler\<close> and \<open>externalResetHandler\<close> likewise.
  \<open>listeners\<close> is the \<^verbatim>\<open>Map\<close> of managed listeners, \<open>resetContainer\<close> the internal
  reset button, if any, with its visibility. \<open>uid\<close> tells the handler functions of one
  object from those of another.
\<close>

record SelectBox =
  uid :: nat
  element :: elem
  opt_multiple :: bool
  opt_showPills :: bool
  opt_searchable :: bool
  opt_closeOnSelect :: bool
  opt_selectedCountText :: string
  isSelecting :: bool
  selectedValues :: "string list"
  listeners :: "(target \<times> string) list"
  triggerButton :: bool
  content :: bool
  valueEl :: bool
  hiddenInput :: bool
  placeholder :: string
  itemClickHandler :: bool
  externalResetHandler :: bool
  resetContainer :: "bool option"

text \<open>
  The page: the containers by element, the \<^verbatim>\<open>instances\<close> registry (the \<^verbatim>\<open>WeakMap\<close>), the
  click listeners on \<^verbatim>\<open>document\<close>, what \<^verbatim>\<open>console.error\<close> printed, and the number of
  objects constructed so far.
\<close>

record page =
  node_of :: "elem \<Rightarrow> container"
  instances :: "elem \<Rightarrow> SelectBox option"
  document_click :: "(nat \<times> handler) list"
  console :: "string list"
  next_uid :: nat

text \<open>\<^verbatim>\<open>Set.prototype.add\<close> and \<^verbatim>\<open>delete\<close>, \<^verbatim>\<open>Array.prototype.join(',')\<close>, and
  \<^verbatim>\<open>String.prototype.replace\<close> with a string pattern (the first occurrence only).\<close>

definition set_add :: "'a \<Rightarrow> 'a list \<Rightarrow> 'a list" where
  "set_add v xs = (if v \<in> set xs then xs else xs @ [v])"

definition set_delete :: "'a \<Rightarrow> 'a list \<Rightarrow> 'a list" where
  "set_delete v xs = removeAll v xs"

fun join_comma :: "string list \<Rightarrow> string" where
  "join_comma [] = []"
| "join_comma [x] = x"
| "join_comma (x # y # ys) = x @ '','' @ join_comma (y # ys)"

fun replace_first :: "string \<Rightarrow> string \<Rightarrow> string \<Rightarrow> string" where
  "replace_first pat rep [] = (if pat = [] then rep else [])"
| "replace_first pat rep (c # s) =
     (if take (length pat) (c # s) = pat then rep @ drop (length pat) (c # s)
      else c # replace_first pat rep s)"

definition count_text :: "string \<Rightarrow> nat \<Rightarrow> string" where
  "count_text template n = replace_first ''{n}'' (dec n) template"

definition display_text :: "display \<Rightarrow> string" where
  "display_text v = (case v of Text s \<Rightarrow> s | Pills ps \<Rightarrow> concat (map (\<lambda>p. p @ [CHR 0xC3, CHR 0x97]) ps))"

definition deselect_all :: "select_item list \<Rightarrow> select_item list" where
  "deselect_all its = map (\<lambda>it. it\<lparr>data_selected := False\<rparr>) its"

definition mark :: "nat \<Rightarrow> bool \<Rightarrow> select_item list \<Rightarrow> select_item list" where
  "mark k b its = its[k := (its ! k)\<lparr>data_selected := b\<rparr>]"

fun first_index :: "('a \<Rightarrow> bool) \<Rightarrow> 'a list \<Rightarrow> nat option" where
  "first_index P [] = None"
| "first_index P (x # xs) = (if P x then Some 0 else map_option Suc (first_index P xs))"

text \<open>
  The private helpers. The constructor calls them once the references are known to be
  set, the public methods after their own check.
\<close>

definition updateDisplay :: "SelectBox \<times> container \<Rightarrow> SelectBox \<times> container" where
  "updateDisplay c =
     (case c of (i, d) \<Rightarrow>
        (let selectedItems = filter data_selected (items d) in
         if selectedItems = [] then (i, d\<lparr>valueEl_content := Text (placeholder i)\<rparr>)
         else if opt_multiple i then
           (if opt_showPills i
            then (i, d\<lparr>valueEl_content := Pills (map item_text selectedItems)\<rparr>)
            else (i, d\<lparr>valueEl_content :=
                          Text (count_text (opt_selectedCountText i) (length selectedItems))\<rparr>))
         else (i, d\<lparr>valueEl_content := Text (item_text (hd selectedItems))\<rparr>)))"

definition updateHiddenInput :: "SelectBox \<times> container \<Rightarrow> SelectBox \<times> container" where
  "updateHiddenInput c =
     (case c of (i, d) \<Rightarrow>
        (let oldValue = hiddenInput_value d;
             newValue = join_comma (selectedValues i)
         in (i, d\<lparr>hiddenInput_value := newValue,
                   observed := observed d @ (if oldValue \<noteq> newValue then [FieldChange] else [])\<rparr>)))"

definition updateResetButtonVisibility :: "SelectBox \<times> container \<Rightarrow> SelectBox \<times> container" where
  "updateResetButtonVisibility c =
     (case c of (i, d) \<Rightarrow>
        (i\<lparr>resetContainer := map_option (\<lambda>_. selectedValues i \<noteq> []) (resetContainer i)\<rparr>, d))"

definition getValue :: "SelectBox \<Rightarrow> getval" where
  "getValue i =
     (if opt_multiple i then Multi (selectedValues i)
      else Single (case selectedValues i of [] \<Rightarrow> None | x # _ \<Rightarrow> Some x))"

definition dispatch :: "sb_event \<Rightarrow> SelectBox \<times> container \<Rightarrow> SelectBox \<times> container" where
  "dispatch ev c = (case c of (i, d) \<Rightarrow> (i, d\<lparr>observed := observed d @ [ev]\<rparr>))"

definition refresh :: "string list \<Rightarrow> nat option \<Rightarrow> SelectBox \<times> container \<Rightarrow> SelectBox \<times> container" where
  "refresh previousValues item c =
     (let c1 = updateResetButtonVisibility (updateHiddenInput (updateDisplay c))
      in dispatch (SelectboxChange (getValue (fst c1)) previousValues item) c1)"

text \<open>
  The public methods dereference \<^verbatim>\<open>this.content\<close>, \<^verbatim>\<open>this.valueEl\<close> and
  \<^verbatim>\<open>this.hiddenInput\<close>. On an object whose \<^verbatim>\<open>init()\<close> was cut short one of them is
  \<^verbatim>\<open>null\<close> or \<^verbatim>\<open>undefined\<close> and the method throws a \<^verbatim>\<open>TypeError\<close>: a method returns
  \<open>Inr\<close> of the new state, or \<open>Inl\<close> of the error that leaves it (what the object looks
  like after a throw is not tracked). \<open>wired\<close> says that the three references are set.
\<close>

definition wired :: "SelectBox \<Rightarrow> bool" where
  "wired i = (content i \<and> valueEl i \<and> hiddenInput i)"

text \<open>
  \<^verbatim>\<open>selectItem(item)\<close>: the item is given by its position among the items of the content;
  a position past the last item stands for no element, and reading its attribute throws.
  The timer that clears \<^verbatim>\<open>isSelecting\<close> after 100 ms is the separate step \<open>settle\<close>.
\<close>

definition selectItem :: "nat \<Rightarrow> SelectBox \<times> container \<Rightarrow> js_error + SelectBox \<times> container" where
  "selectItem k c =
     (case c of (i, d) \<Rightarrow>
        if isSelecting i then Inr c
        else if length (items d) \<le> k \<or> \<not> wired i then Inl TypeError
        else
          (let v = data_value (items d ! k);
               previousValues = selectedValues i;
               i1 = i\<lparr>isSelecting := True\<rparr>
           in Inr (refresh previousValues (Some k)
                (if opt_multiple i
                 then (if v \<in> set (selectedValues i)
                       then (i1\<lparr>selectedValues := set_delete v (selectedValues i)\<rparr>,
                             d\<lparr>items := mark k False (items d)\<rparr>)
                       else (i1\<lparr>selectedValues := set_add v (selectedValues i)\<rparr>,
                             d\<lparr>items := mark k True (items d)\<rparr>))
                 else (i1\<lparr>selectedValues := set_add v []\<rparr>,
                       d\<lparr>items := mark k True (deselect_all (items d))\<rparr>)))))"

definition settle :: "SelectBox \<times> container \<Rightarrow> SelectBox \<times> container" where
  "settle c = (case c of (i, d) \<Rightarrow> (i\<lparr>isSelecting := False\<rparr>, d))"

text \<open>
  \<^verbatim>\<open>setValue(value)\<close>: \<open>One\<close> is a single value, \<open>Many\<close> an array; \<open>None\<close> is
  \<^verbatim>\<open>null\<close> or \<^verbatim>\<open>undefined\<close>. Each value is put, as it is, into the selector text of
  \<^verbatim>\<open>this.content.querySelector('.select-item[data-value="' + val + '"]')\<close>. What that
  call does is the browser's business, so the selector engine is a parameter:
  \<open>qs val its\<close> is the result of the call for the value \<open>val\<close> when the content holds
  the items \<open>its\<close>: a thrown error (\<open>Inl\<close>, a \<^verbatim>\<open>SyntaxError\<close> for a text that is no
  selector), no element (\<open>Inr None\<close>), or the position of the first element that
  matches. An error of the engine leaves \<^verbatim>\<open>setValue\<close> at once.

  For a value without double quote, backslash, line break and NUL (\<open>css_plain\<close>) the text
  between the quotes is an ordinary CSS string and stands for the value itself, so the
  call finds the first item whose \<^verbatim>\<open>data-value\<close> equals the value:
  \<open>standard_on_plain\<close> says that of an engine. Other values end the string early or
  are unescaped by the engine; nothing is assumed about them. \<open>plain_engine\<close> is an
  engine to test with: it is standard on plain values and refuses all others.
\<close>

type_synonym selector_engine = "string \<Rightarrow> select_item list \<Rightarrow> js_error + nat option"

definition css_plain :: "string \<Rightarrow> bool" where
  "css_plain s = list_all (\<lambda>c. c \<notin> set [CHR 0x22, CHR 0x5C, CHR 0x0A, CHR 0x0C, CHR 0x0D, CHR 0x00]) s"

definition standard_on_plain :: "selector_engine \<Rightarrow> bool" where
  "standard_on_plain qs =
     (\<forall>v its. css_plain v \<longrightarrow> qs v its = Inr (first_index (\<lambda>it. data_value it = v) its))"

definition plain_engine :: selector_engine where
  "plain_engine v its =
     (if css_plain v then Inr (first_index (\<lambda>it. data_value it = v) its)
      else Inl SyntaxError)"

text \<open>The \<^verbatim>\<open>values.forEach\<close> loop of \<^verbatim>\<open>setValue\<close>.\<close>

fun select_values ::
    "selector_engine \<Rightarrow> string option list \<Rightarrow> SelectBox \<times> container \<Rightarrow>
     js_error + SelectBox \<times> container" where
  "select_values qs [] c = Inr c"
| "select_values qs (None # vals) c = select_values qs vals c"
| "select_values qs (Some v # vals) c =
     (case qs v (items (snd c)) of
        Inl e \<Rightarrow> Inl e
      | Inr None \<Rightarrow> select_values qs vals c
      | Inr (Some k) \<Rightarrow>
          select_values qs vals
            ((fst c)\<lparr>selectedValues := set_add v (selectedValues (fst c))\<rparr>,
             (snd c)\<lparr>items := mark k True (items (snd c))\<rparr>))"

definition setValue ::
    "selector_engine \<Rightarrow> setval \<Rightarrow> SelectBox \<times> container \<Rightarrow> js_error + SelectBox \<times> container" where
  "setValue qs v c =
     (case c of (i, d) \<Rightarrow>
        if \<not> content i then Inl TypeError
        else
          (let previousValues = selectedValues i;
               c0 = (i\<lparr>selectedValues := []\<rparr>, d\<lparr>items := deselect_all (items d)\<rparr>);
               vals = (case v of One x \<Rightarrow> [x] | Many xs \<Rightarrow> xs)
           in case select_values qs vals c0 of
                Inl e \<Rightarrow> Inl e
              | Inr c1 \<Rightarrow>
                  if \<not> valueEl i \<or> \<not> hiddenInput i then Inl TypeError
                  else Inr (refresh previousValues None c1)))"

definition reset :: "SelectBox \<times> container \<Rightarrow> js_error + SelectBox \<times> container" where
  "reset c =
     (case c of (i, d) \<Rightarrow>
        if \<not> wired i then Inl TypeError
        else
          (let previousValues = selectedValues i;
               i1 = i\<lparr>selectedValues := []\<rparr>;
               d1 = d\<lparr>items := deselect_all (items d),
                      valueEl_content := Text (placeholder i),
                      hiddenInput_value := [],
                      observed := observed d @ [FieldChange]\<rparr>;
               c2 = updateResetButtonVisibility (i1, d1);
               c3 = (case search_value (snd c2) of
                       None \<Rightarrow> c2
                     | Some _ \<Rightarrow>
                         dispatch SearchInput (fst c2, (snd c2)\<lparr>search_value := Some []\<rparr>))
           in Inr (dispatch (SelectboxReset previousValues) c3)))"

definition enable :: "SelectBox \<times> container \<Rightarrow> js_error + SelectBox \<times> container" where
  "enable c =
     (case c of (i, d) \<Rightarrow>
        if \<not> triggerButton i then Inl TypeError else Inr (i, d\<lparr>trigger_disabled := False\<rparr>))"

definition disable :: "SelectBox \<times> container \<Rightarrow> js_error + SelectBox \<times> container" where
  "disable c =
     (case c of (i, d) \<Rightarrow>
        if \<not> triggerButton i then Inl TypeError else Inr (i, d\<lparr>trigger_disabled := True\<rparr>))"

text \<open>
  What \<^verbatim>\<open>getValue()\<close> returns after a call that returned, and the error of a call that
  threw.
\<close>

definition value_after :: "js_error + SelectBox \<times> container \<Rightarrow> js_error + getval" where
  "value_after r = (case r of Inl e \<Rightarrow> Inl e | Inr c \<Rightarrow> Inr (getValue (fst c)))"

text \<open>
  \<^verbatim>\<open>new SelectBox(element)\<close>, that is the constructor and \<^verbatim>\<open>init()\<close>: the marker is set
  first, then the sub-elements are looked up, and a missing one ends \<^verbatim>\<open>init()\<close> after a
  \<^verbatim>\<open>console.error\<close>; the constructor returns the object all the same.
\<close>

definition initializeSelection :: "SelectBox \<times> container \<Rightarrow> SelectBox \<times> container" where
  "initializeSelection c =
     (case c of (i, d) \<Rightarrow>
        (let selectedItems = filter data_selected (items d);
             i1 = i\<lparr>selectedValues :=
                     fold (\<lambda>it sel. if data_value it \<noteq> [] then set_add (data_value it) sel else sel)
                       selectedItems (selectedValues i)\<rparr>
         in if selectedItems \<noteq> [] then updateHiddenInput (updateDisplay (i1, d)) else (i1, d)))"

definition addEventListener :: "target \<Rightarrow> string \<Rightarrow> SelectBox \<times> container \<Rightarrow> SelectBox \<times> container" where
  "addEventListener tg ev c =
     (case c of (i, d) \<Rightarrow>
        (i\<lparr>listeners := listeners i @ [(tg, ev)]\<rparr>,
         d\<lparr>attached := set_add (uid i, tg, ev) (attached d)\<rparr>))"

definition setupEventHandlers :: "SelectBox \<times> container \<Rightarrow> SelectBox \<times> container" where
  "setupEventHandlers c =
     (let c1 = addEventListener Trigger ''keydown'' c;
          c2 = (if search_value (snd c1) \<noteq> None then addEventListener Search ''input'' c1 else c1);
          c3 = addEventListener Content ''keydown'' c2;
          c4 = ((fst c3)\<lparr>itemClickHandler := True\<rparr>, snd c3);
          c5 = addEventListener Content ''mouseover'' c4
      in addEventListener Content ''mouseleave'' c5)"

definition setupResetFunctionality :: "SelectBox \<times> container \<Rightarrow> SelectBox \<times> container" where
  "setupResetFunctionality c =
     (let c1 = (if show_reset (snd c)
                then updateResetButtonVisibility
                       (case addEventListener ResetButton ''click'' c of
                          (i, d) \<Rightarrow> (i\<lparr>resetContainer := Some False\<rparr>, d))
                else c)
      in ((fst c1)\<lparr>externalResetHandler := True\<rparr>, snd c1))"

definition new_SelectBox :: "nat \<Rightarrow> elem \<Rightarrow> SelectBox" where
  "new_SelectBox n e =
     \<lparr>uid = n, element = e, opt_multiple = False, opt_showPills = False,
      opt_searchable = True, opt_closeOnSelect = True,
      opt_selectedCountText = ''{n} items selected'', isSelecting = False,
      selectedValues = [], listeners = [], triggerButton = False, content = False,
      valueEl = False, hiddenInput = False, placeholder = [], itemClickHandler = False,
      externalResetHandler = False, resetContainer = None\<rparr>"

definition truthy :: "string option \<Rightarrow> bool" where
  "truthy s = (case s of None \<Rightarrow> False | Some t \<Rightarrow> t \<noteq> [])"

definition init_parts :: "SelectBox \<times> container \<Rightarrow> SelectBox \<times> container" where
  "init_parts c =
     (case c of (i, d) \<Rightarrow>
        (let ph = (if truthy (data_placeholder d) then the (data_placeholder d)
                   else display_text (valueEl_content d));
             i1 = i\<lparr>placeholder := ph,
                    opt_multiple := data_multiple d,
                    opt_showPills := data_showPills d,
                    opt_selectedCountText :=
                      (if truthy (data_selectedCountText d) then the (data_selectedCountText d)
                       else opt_selectedCountText i)\<rparr>;
             d1 = d\<lparr>data_placeholder := Some ph\<rparr>
         in dispatch SelectboxInit
              (setupResetFunctionality (setupEventHandlers (initializeSelection (i1, d1))))))"

definition construct :: "elem \<Rightarrow> page \<Rightarrow> SelectBox \<times> page" where
  "construct e pg =
     (let i0 = new_SelectBox (next_uid pg) e;
          d1 = (node_of pg e)\<lparr>initialized := True\<rparr>;
          pg1 = pg\<lparr>next_uid := Suc (next_uid pg)\<rparr>
      in if \<not> trigger_found d1
         then (i0, pg1\<lparr>node_of := (node_of pg)(e := d1),
                       console := console pg @ [''SelectBox: Trigger button not found'']\<rparr>)
         else
           (let i1 = i0\<lparr>triggerButton := True, content := content_found d1,
                         valueEl := valueEl_found d1, hiddenInput := hiddenInput_found d1\<rparr>
            in if \<not> content_found d1 \<or> \<not> valueEl_found d1 \<or> \<not> hiddenInput_found d1
               then (i1, pg1\<lparr>node_of := (node_of pg)(e := d1),
                             console := console pg @ [''SelectBox: Missing required elements'']\<rparr>)
               else
                 (case init_parts (i1, d1) of
                    (i2, d2) \<Rightarrow>
                      (i2, pg1\<lparr>node_of := (node_of pg)(e := d2),
                               document_click :=
                                 set_add (uid i2, ExternalReset)
                                   (set_add (uid i2, ItemClick) (document_click pg))\<rparr>))))"

text \<open>
  The public object \<^verbatim>\<open>window.templUI.selectbox\<close>. \<open>api_init\<close> takes the elements the
  selector resolved to. \<open>api_destroy\<close> is \<^verbatim>\<open>destroy(selector)\<close> with a selector, which
  resolved to an element or to none. Without a selector the source calls
  \<^verbatim>\<open>instances.forEach\<close>, which a \<^verbatim>\<open>WeakMap\<close> does not have: a \<^verbatim>\<open>TypeError\<close>.
\<close>

definition getInstance :: "elem option \<Rightarrow> page \<Rightarrow> SelectBox option" where
  "getInstance sel pg = (case sel of None \<Rightarrow> None | Some e \<Rightarrow> instances pg e)"

definition init_element :: "elem \<Rightarrow> page \<Rightarrow> page" where
  "init_element e pg =
     (if instances pg e \<noteq> None then pg
      else (case construct e pg of
              (i, pg1) \<Rightarrow> pg1\<lparr>instances := (instances pg1)(e \<mapsto> i)\<rparr>))"

definition api_init :: "elem list \<Rightarrow> page \<Rightarrow> page" where
  "api_init elements pg = fold init_element elements pg"

text \<open>
  \<^verbatim>\<open>destroy()\<close> of an object. \<^verbatim>\<open>removeEventListener\<close> for a listener that is not
  attached does nothing.
\<close>

definition destroy :: "SelectBox \<Rightarrow> page \<Rightarrow> SelectBox \<times> page" where
  "destroy i pg =
     (let d = node_of pg (element i);
          d1 = d\<lparr>attached := fold (\<lambda>(tg, ev). removeAll (uid i, tg, ev)) (listeners i) (attached d),
                 initialized := False,
                 observed := observed d @ [SelectboxDestroy]\<rparr>;
          dc1 = (if itemClickHandler i then removeAll (uid i, ItemClick) (document_click pg)
                 else document_click pg);
          dc2 = (if externalResetHandler i then removeAll (uid i, ExternalReset) dc1 else dc1)
      in (i\<lparr>listeners := []\<rparr>,
          pg\<lparr>node_of := (node_of pg)(element i := d1),
             instances := (instances pg)(element i := None),
             document_click := dc2\<rparr>))"

definition api_destroy :: "elem option \<Rightarrow> page \<Rightarrow> page" where
  "api_destroy sel pg =
     (case getInstance sel pg of None \<Rightarrow> pg | Some i \<Rightarrow> snd (destroy i pg))"

definition api_destroy_all :: "page \<Rightarrow> js_error + page" where
  "api_destroy_all pg = Inl TypeError"

text \<open>
  \<^verbatim>\<open>initStepper(container)\<close> and \<^verbatim>\<open>init(root)\<close> of the stepper. A stepper element has
  its marker, its \<^verbatim>\<open>data-stepper-id\<close> and the state \<^verbatim>\<open>initStepper\<close> closes over
  (\<open>sn_live\<close> once the closure exists). \<open>stepper_init root steppers\<close>: \<open>root\<close> is the
  root when it is itself a \<^verbatim>\<open>[data-stepper]\<close> element, \<open>steppers\<close> the
  \<^verbatim>\<open>[data-stepper]\<close> elements below it; the \<^verbatim>\<open>:not([data-initialized])\<close> part of the
  query is the filter.
\<close>

record stepper_node =
  sn_initialized :: bool
  sn_stepperId :: "string option"
  sn_live :: bool
  sn_state :: stepper

definition initStepper :: "stepper_node \<Rightarrow> stepper_node" where
  "initStepper n =
     (if sn_initialized n then n
      else
        (let n1 = n\<lparr>sn_initialized := True\<rparr> in
         if \<not> truthy (sn_stepperId n) then n1
         else n1\<lparr>sn_live := True,
                 sn_state :=
                   updateStepStates
                     ((sn_state n)\<lparr>currentStep :=
                        num_or_1 (case data_currentStep (sn_state n) of
                                    None \<Rightarrow> NaN | Some k \<Rightarrow> k)\<rparr>)\<rparr>))"

definition init_stepper_at :: "elem \<Rightarrow> (elem \<Rightarrow> stepper_node) \<Rightarrow> (elem \<Rightarrow> stepper_node)" where
  "init_stepper_at e sp = sp(e := initStepper (sp e))"

definition stepper_init ::
    "elem option \<Rightarrow> elem list \<Rightarrow> (elem \<Rightarrow> stepper_node) \<Rightarrow> (elem \<Rightarrow> stepper_node)" where
  "stepper_init root steppers sp =
     (let sp1 = (case root of None \<Rightarrow> sp | Some r \<Rightarrow> init_stepper_at r sp)
      in fold init_stepper_at (filter (\<lambda>e. \<not> sn_initialized (sp1 e)) steppers) sp1)"

text \<open>
  A page to test with: element 0 is a single-selection control, element 1 a
  multiple-selection control, both with the options a, b and c and none selected;
  element 2 lacks its hidden input.
\<close>

definition demo_item :: "string \<Rightarrow> select_item" where
  "demo_item v = \<lparr>data_value = v, data_selected = False, item_text = ''Option '' @ v\<rparr>"

definition demo_container :: "bool \<Rightarrow> container" where
  "demo_container multi =
     \<lparr>initialized = False, show_reset = True, trigger_found = True, content_found = True,
      valueEl_found = True, hiddenInput_found = True, data_multiple = multi,
      data_showPills = False, data_selectedCountText = None, data_placeholder = None,
      valueEl_content = Text ''Select...'',
      items = [demo_item ''a'', demo_item ''b'', demo_item ''c''],
      search_value = Some [], hiddenInput_value = [], trigger_disabled = False,
      attached = [], observed = []\<rparr>"

definition demo_page :: page where
  "demo_page =
     \<lparr>node_of = (\<lambda>e. if e = 0 then demo_container False
                 else if e = 1 then demo_container True
                 else (demo_container False)\<lparr>hiddenInput_found := False\<rparr>),
      instances = Map.empty, document_click = [], console = [], next_uid = 0\<rparr>"

definition control_of :: "elem \<Rightarrow> page \<Rightarrow> SelectBox \<times> container" where
  "control_of e pg = (case construct e pg of (i, pg1) \<Rightarrow> (i, node_of pg1 e))"

definition single_demo :: "SelectBox \<times> container" where
  "single_demo = control_of 0 demo_page"

definition multi_demo :: "SelectBox \<times> container" where
  "multi_demo = control_of 1 demo_page"

definition complete :: "container \<Rightarrow> bool" where
  "complete d = (trigger_found d \<and> content_found d \<and> valueEl_found d \<and> hiddenInput_found d)"

definition note_destroy :: "elem \<Rightarrow> page \<Rightarrow> page" where
  "note_destroy e pg =
     pg\<lparr>node_of := (node_of pg)(e := (node_of pg e)\<lparr>observed := observed (node_of pg e) @ [SelectboxDestroy]\<rparr>)\<rparr>"

definition demo_live_page :: page where
  "demo_live_page = api_init [0] demo_page"

definition demo_instance :: SelectBox where
  "demo_instance = fst (construct 0 demo_page)"

text \<open>
  The same page when element 0 arrives with the marker already on it, as markup does
  that was cloned or inserted again with its attributes.
\<close>

definition demo_marked_page :: page where
  "demo_marked_page =
     demo_page\<lparr>node_of := (node_of demo_page)(0 := (node_of demo_page 0)\<lparr>initialized := True\<rparr>)\<rparr>"

section \<open>Step bounds\<close>

lemma update_step_number: "step_number (update_step cur st) = step_number st"
  by (simp add: update_step_def Let_def)

lemma update_step_status:
  "data_status (update_step cur st) = Some (step_status (step_number st) cur)"
  by (simp add: update_step_def Let_def)

lemma step_status_Num:
  "step_status (Num k) (Num n) =
     (if k < n then ''completed'' else if k = n then ''active'' else ''incomplete'')"
  by (simp add: step_status_def)

definition demo_step :: "int \<Rightarrow> step" where
  "demo_step k = \<lparr>step_number = Num k, data_status = None, has_trigger = True,
                  aria_current = None\<rparr>"

definition demo_stepper :: stepper where
  "demo_stepper = \<lparr>steps = [demo_step 1, demo_step 2, demo_step 3],
                    stepContents = [\<lparr>content_number = Num 1, shown = True\<rparr>,
                                    \<lparr>content_number = Num 2, shown = False\<rparr>,
                                    \<lparr>content_number = Num 3, shown = False\<rparr>],
                    currentStep = Num 1,
                    data_currentStep = Some (Num 1),
                    dispatched = []\<rparr>"

text \<open>
  C4. With \<open>N\<close> steps, \<^verbatim>\<open>goToStep(0)\<close> and \<^verbatim>\<open>goToStep(N+1)\<close> return the state as it
  was (current step, statuses, panels, attribute and event log alike); so do
  \<^verbatim>\<open>prevStep()\<close> at step 1 and \<^verbatim>\<open>nextStep()\<close> at step \<open>N\<close>. For \<open>1 \<le> n \<le> N\<close>,
  \<^verbatim>\<open>goToStep(n)\<close> makes \<open>n\<close> the current step, keeps the steps and their numbers, and
  leaves every step numbered \<open>k\<close> with status \<^verbatim>\<open>completed\<close> when \<open>k < n\<close>, \<^verbatim>\<open>active\<close>
  when \<open>k = n\<close> and \<^verbatim>\<open>incomplete\<close> when \<open>k > n\<close>.
\<close>

theorem goToStep_bounds:
  "goToStep (Num 0) s = s \<and>
   goToStep (Num (int (length (steps s)) + 1)) s = s \<and>
   (currentStep s = Num 1 \<longrightarrow> prevStep s = s) \<and>
   (currentStep s = Num (int (length (steps s))) \<longrightarrow> nextStep s = s) \<and>
   (1 \<le> n \<and> n \<le> int (length (steps s)) \<longrightarrow>
      currentStep (goToStep (Num n) s) = Num n \<and>
      map step_number (steps (goToStep (Num n) s)) = map step_number (steps s) \<and>
      (\<forall>st \<in> set (steps (goToStep (Num n) s)). \<forall>k. step_number st = Num k \<longrightarrow>
         data_status st =
           Some (if k < n then ''completed'' else if k = n then ''active''
                 else ''incomplete'')))"
proof -
  have lo: "goToStep (Num 0) s = s"
    by (simp add: goToStep_def)
  have hi: "goToStep (Num (int (length (steps s)) + 1)) s = s"
    by (simp add: goToStep_def)
  have prev: "currentStep s = Num 1 \<longrightarrow> prevStep s = s"
    by (simp add: prevStep_def)
  have nxt: "currentStep s = Num (int (length (steps s))) \<longrightarrow> nextStep s = s"
    by (simp add: nextStep_def)
  have go: "1 \<le> n \<and> n \<le> int (length (steps s)) \<longrightarrow>
      currentStep (goToStep (Num n) s) = Num n \<and>
      map step_number (steps (goToStep (Num n) s)) = map step_number (steps s) \<and>
      (\<forall>st \<in> set (steps (goToStep (Num n) s)). \<forall>k. step_number st = Num k \<longrightarrow>
         data_status st =
           Some (if k < n then ''completed'' else if k = n then ''active''
                 else ''incomplete''))"
  proof
    assume range: "1 \<le> n \<and> n \<le> int (length (steps s))"
    then have eq: "goToStep (Num n) s = updateStepStates (s\<lparr>currentStep := Num n\<rparr>)"
      by (simp add: goToStep_def)
    have cur: "currentStep (goToStep (Num n) s) = Num n"
      by (simp add: eq updateStepStates_def)
    have nums: "map step_number (steps (goToStep (Num n) s)) = map step_number (steps s)"
      by (simp add: eq updateStepStates_def update_step_number)
    have stat: "\<forall>st \<in> set (steps (goToStep (Num n) s)). \<forall>k. step_number st = Num k \<longrightarrow>
         data_status st =
           Some (if k < n then ''completed'' else if k = n then ''active''
                 else ''incomplete'')"
    proof (intro ballI allI impI)
      fix st k
      assume mem: "st \<in> set (steps (goToStep (Num n) s))" and k: "step_number st = Num k"
      from mem obtain st0 where st0: "st = update_step (Num n) st0"
        by (auto simp: eq updateStepStates_def)
      with k have "step_number st0 = Num k"
        by (simp add: update_step_number)
      then show "data_status st =
           Some (if k < n then ''completed'' else if k = n then ''active''
                 else ''incomplete'')"
        by (simp add: st0 update_step_status step_status_Num)
    qed
    from cur nums stat show "currentStep (goToStep (Num n) s) = Num n \<and>
      map step_number (steps (goToStep (Num n) s)) = map step_number (steps s) \<and>
      (\<forall>st \<in> set (steps (goToStep (Num n) s)). \<forall>k. step_number st = Num k \<longrightarrow>
         data_status st =
           Some (if k < n then ''completed'' else if k = n then ''active''
                 else ''incomplete''))"
      by blast
  qed
  from lo hi prev nxt go show ?thesis by blast
qed

theorem goToStep_bounds_witness:
  "currentStep demo_stepper = Num 1 \<and> prevStep demo_stepper = demo_stepper \<and>
   (1::int) \<le> 2 \<and> 2 \<le> int (length (steps demo_stepper)) \<and>
   currentStep (goToStep (Num 2) demo_stepper) = Num 2 \<and>
   map data_status (steps (goToStep (Num 2) demo_stepper)) =
     [Some ''completed'', Some ''active'', Some ''incomplete''] \<and>
   currentStep (goToStep (Num 3) demo_stepper) = Num 3 \<and>
   nextStep (goToStep (Num 3) demo_stepper) = goToStep (Num 3) demo_stepper"
  using goToStep_bounds [of demo_stepper 2]
    goToStep_bounds [of "goToStep (Num 3) demo_stepper" 3]
  by (simp add: demo_stepper_def demo_step_def goToStep_def updateStepStates_def
      update_step_def update_content_def step_status_def)

section \<open>The date parser round trip\<close>

lemma digits_Some:
  "digits n s = Some (p, r) \<Longrightarrow> s = p @ r \<and> length p = n \<and> list_all is_digit p"
  by (auto simp: digits_def split: if_splits)

lemma digits_prefix:
  "length p = n \<Longrightarrow> list_all is_digit p \<Longrightarrow> digits n (p @ r) = Some (p, r)"
  by (simp add: digits_def)

lemma lit_Some: "lit cs s = Some r \<Longrightarrow> \<exists>c. c \<in> set cs \<and> s = c # r"
  by (cases s) (auto split: if_splits)

lemma parseInt10_digits:
  "list_all is_digit p \<Longrightarrow> p \<noteq> [] \<Longrightarrow> \<exists>k. parseInt10 p = Num k"
proof -
  assume a: "list_all is_digit p" and b: "p \<noteq> []"
  from a have tw: "takeWhile is_digit p = p"
    by (simp add: list_all_iff)
  show ?thesis unfolding parseInt10_def Let_def tw using b by simp
qed

lemma digits_parse:
  "digits n s = Some (p, r) \<Longrightarrow> 0 < n \<Longrightarrow> \<exists>k. parseInt10 p = Num k"
  using digits_Some [of n s p r] parseInt10_digits [of p] by auto

lemma match_date_parts:
  assumes "match_date s = Some (p1, p2, p3)"
  shows "s \<noteq> [] \<and> (\<exists>y. parseInt10 p1 = Num y) \<and> (\<exists>m. parseInt10 p2 = Num m) \<and>
         (\<exists>d. parseInt10 p3 = Num d)"
proof -
  from assms obtain s1 s2 s3 s4 s5 where
    d1: "digits 4 s = Some (p1, s1)" and "lit ''-'' s1 = Some s2" and
    d2: "digits 2 s2 = Some (p2, s3)" and "lit ''-'' s3 = Some s4" and
    d3: "digits 2 s4 = Some (p3, s5)"
    by (auto simp: match_date_def split: option.splits if_splits)
  from d1 have "s \<noteq> []" by (auto simp: digits_def split: if_splits)
  with digits_parse [OF d1] digits_parse [OF d2] digits_parse [OF d3] show ?thesis
    by simp
qed

text \<open>
  C5. For an input of the shape \<^verbatim>\<open>YYYY-MM-DD\<close> the three captures are numbers
  \<open>y\<close>, \<open>m\<close>, \<open>d\<close>, and \<^verbatim>\<open>parseISODate\<close> returns the instant
  \<^verbatim>\<open>Date.UTC(y, m - 1, d)\<close> exactly when that instant reads back as year \<open>y\<close>, month
  \<open>m - 1\<close> and day \<open>d\<close>; in every other case it returns \<^verbatim>\<open>null\<close>. So
  \<^verbatim>\<open>2023-02-30\<close> and \<^verbatim>\<open>2023-13-01\<close> give \<^verbatim>\<open>null\<close>, and \<^verbatim>\<open>2023-06-15\<close> gives
  midnight UTC of 15 June 2023.
\<close>

theorem parseISODate_round_trip:
  "(match_date s = Some (p1, p2, p3) \<longrightarrow>
      (\<exists>y m d. parseInt10 p1 = Num y \<and> parseInt10 p2 = Num m \<and> parseInt10 p3 = Num d \<and>
         parseISODate s =
           (case Date_UTC y (m - 1) d 0 0 0 of
              NaN \<Rightarrow> None
            | Num t \<Rightarrow>
                if YearFromTime t = y \<and> MonthFromTime t = m - 1 \<and> DateFromTime t = d
                then Some (Num t) else None))) \<and>
   parseISODate ''2023-02-30'' = None \<and>
   parseISODate ''2023-13-01'' = None \<and>
   parseISODate ''2023-06-15'' = Some (Num 1686787200000) \<and>
   YearFromTime 1686787200000 = 2023 \<and> MonthFromTime 1686787200000 = 5 \<and>
   DateFromTime 1686787200000 = 15 \<and> 1686787200000 mod msPerDay = 0"
proof -
  have gen: "match_date s = Some (p1, p2, p3) \<longrightarrow>
      (\<exists>y m d. parseInt10 p1 = Num y \<and> parseInt10 p2 = Num m \<and> parseInt10 p3 = Num d \<and>
         parseISODate s =
           (case Date_UTC y (m - 1) d 0 0 0 of
              NaN \<Rightarrow> None
            | Num t \<Rightarrow>
                if YearFromTime t = y \<and> MonthFromTime t = m - 1 \<and> DateFromTime t = d
                then Some (Num t) else None))"
  proof
    assume m: "match_date s = Some (p1, p2, p3)"
    from match_date_parts [OF m] obtain y mo d where
      ne: "s \<noteq> []" and y: "parseInt10 p1 = Num y" and mo: "parseInt10 p2 = Num mo" and
      d: "parseInt10 p3 = Num d"
      by blast
    have "parseISODate s =
           (case Date_UTC y (mo - 1) d 0 0 0 of
              NaN \<Rightarrow> None
            | Num t \<Rightarrow>
                if YearFromTime t = y \<and> MonthFromTime t = mo - 1 \<and> DateFromTime t = d
                then Some (Num t) else None)"
      using ne m y mo d
      by (simp add: parseISODate_def read_back_def Let_def split: num.splits)
    with y mo d show "\<exists>y m d. parseInt10 p1 = Num y \<and> parseInt10 p2 = Num m \<and>
         parseInt10 p3 = Num d \<and>
         parseISODate s =
           (case Date_UTC y (m - 1) d 0 0 0 of
              NaN \<Rightarrow> None
            | Num t \<Rightarrow>
                if YearFromTime t = y \<and> MonthFromTime t = m - 1 \<and> DateFromTime t = d
                then Some (Num t) else None)"
      by blast
  qed
  have e1: "parseISODate ''2023-02-30'' = None" by code_simp
  have e2: "parseISODate ''2023-13-01'' = None" by code_simp
  have e3: "parseISODate ''2023-06-15'' = Some (Num 1686787200000)" by code_simp
  have e4: "YearFromTime 1686787200000 = 2023" by code_simp
  have e5: "MonthFromTime 1686787200000 = 5" by code_simp
  have e6: "DateFromTime 1686787200000 = 15" by code_simp
  have e7: "1686787200000 mod msPerDay = 0" by (simp add: msPerDay_def)
  from gen e1 e2 e3 e4 e5 e6 e7 show ?thesis by blast
qed

theorem parseISODate_round_trip_witness:
  "match_date ''2023-02-30'' = Some (''2023'', ''02'', ''30'') \<and>
   parseInt10 ''2023'' = Num 2023 \<and> parseInt10 ''02'' = Num 2 \<and>
   parseInt10 ''30'' = Num 30 \<and>
   Date_UTC 2023 1 30 0 0 0 = Num 1677715200000 \<and>
   MonthFromTime 1677715200000 = 2 \<and> DateFromTime 1677715200000 = 2 \<and>
   parseISODate ''2023-02-30'' = None"
proof -
  have a: "match_date ''2023-02-30'' = Some (''2023'', ''02'', ''30'')"
    by code_simp
  have b: "parseInt10 ''2023'' = Num 2023 \<and> parseInt10 ''02'' = Num 2 \<and>
           parseInt10 ''30'' = Num 30"
    by code_simp
  have c: "Date_UTC 2023 1 30 0 0 0 = Num 1677715200000"
    by code_simp
  have d: "MonthFromTime 1677715200000 = 2 \<and> DateFromTime 1677715200000 = 2"
    by code_simp
  from a b c d parseISODate_round_trip [of "''2023-02-30''" "''2023''" "''02''" "''30''"]
  show ?thesis by blast
qed

section \<open>The date-time parser checks the date only\<close>

lemma Day_MakeDate: "0 \<le> tm \<Longrightarrow> tm < msPerDay \<Longrightarrow> Day (MakeDate day tm) = day"
  unfolding Day_def MakeDate_def msPerDay_def
  by (rule int_div_pos_eq [of _ _ _ tm]) simp_all

lemma getters_same_day:
  "Day t = Day t' \<Longrightarrow>
   YearFromTime t = YearFromTime t' \<and> MonthFromTime t = MonthFromTime t' \<and>
   DateFromTime t = DateFromTime t'"
  by (simp add: YearFromTime_def MonthFromTime_def DateFromTime_def DayWithinYear_def)

lemma match_time_Some:
  assumes "match_time s = Some (p4, p5, p6, r)"
  shows "\<exists>c. c \<in> set ''T '' \<and> length p4 = 2 \<and> list_all is_digit p4 \<and>
             length p5 = 2 \<and> list_all is_digit p5 \<and>
             (case p6 of
                None \<Rightarrow> s = c # p4 @ '':'' @ p5 @ r
              | Some q \<Rightarrow> length q = 2 \<and> list_all is_digit q \<and>
                  s = c # p4 @ '':'' @ p5 @ '':'' @ q @ r)"
proof -
  from assms obtain s1 s2 s3 s4 where
    l1: "lit ''T '' s = Some s1" and d4: "digits 2 s1 = Some (p4, s2)" and
    l2: "lit '':'' s2 = Some s3" and d5: "digits 2 s3 = Some (p5, s4)" and
    rest: "(case lit '':'' s4 of None \<Rightarrow> Some (p4, p5, None, s4) | Some s5 \<Rightarrow>
            case digits 2 s5 of None \<Rightarrow> Some (p4, p5, None, s4)
            | Some (q, s6) \<Rightarrow> Some (p4, p5, Some q, s6)) = Some (p4, p5, p6, r)"
    by (auto simp: match_time_def split: option.splits)
  from lit_Some [OF l1] obtain c where c: "c \<in> set ''T ''" "s = c # s1" by blast
  from lit_Some [OF l2] have s2: "s2 = CHR '':'' # s3" by auto
  note D4 = digits_Some [OF d4] and D5 = digits_Some [OF d5]
  show ?thesis
  proof (cases p6)
    case None
    with rest have r: "r = s4"
      by (auto split: option.splits)
    from c D4 D5 s2 r None show ?thesis by auto
  next
    case (Some q)
    with rest obtain s5 where l3: "lit '':'' s4 = Some s5" and d6: "digits 2 s5 = Some (q, r)"
      by (auto split: option.splits)
    from lit_Some [OF l3] have s4: "s4 = CHR '':'' # s5" by auto
    from c D4 D5 s2 s4 digits_Some [OF d6] Some show ?thesis by auto
  qed
qed

text \<open>The part of the input the date-time pattern matched.\<close>

definition matched_text :: "string \<Rightarrow> dt_match \<Rightarrow> string" where
  "matched_text s m = take (length s - length (unmatched m)) s"

lemma match_time_Nil: "match_time [] = None"
  by (simp add: match_time_def)

lemma lit_Cons: "c \<in> set cs \<Longrightarrow> lit cs (c # s) = Some s"
  by simp

lemma match_time_build2:
  assumes "c \<in> set ''T ''" "length p4 = 2" "list_all is_digit p4"
    "length p5 = 2" "list_all is_digit p5"
  shows "match_time (c # p4 @ '':'' @ p5) = Some (p4, p5, None, [])"
proof -
  have a: "lit ''T '' (c # p4 @ '':'' @ p5) = Some (p4 @ '':'' @ p5)"
    using assms(1) by (rule lit_Cons)
  have b: "digits 2 (p4 @ '':'' @ p5) = Some (p4, '':'' @ p5)"
    using assms(2,3) by (rule digits_prefix)
  have c: "lit '':'' ('':'' @ p5) = Some p5"
    by simp
  have d: "digits 2 p5 = Some (p5, [])"
    using digits_prefix [OF assms(4,5), of "[]"] by simp
  have e: "lit '':'' [] = None"
    by simp
  show ?thesis
    unfolding match_time_def a b c d e option.case prod.case ..
qed

lemma match_time_build3:
  assumes "c \<in> set ''T ''" "length p4 = 2" "list_all is_digit p4"
    "length p5 = 2" "list_all is_digit p5" "length q = 2" "list_all is_digit q"
  shows "match_time (c # p4 @ '':'' @ p5 @ '':'' @ q) = Some (p4, p5, Some q, [])"
proof -
  have a: "lit ''T '' (c # p4 @ '':'' @ p5 @ '':'' @ q) = Some (p4 @ '':'' @ p5 @ '':'' @ q)"
    using assms(1) by (rule lit_Cons)
  have b: "digits 2 (p4 @ '':'' @ p5 @ '':'' @ q) = Some (p4, '':'' @ p5 @ '':'' @ q)"
    using assms(2,3) by (rule digits_prefix)
  have c: "lit '':'' ('':'' @ p5 @ '':'' @ q) = Some (p5 @ '':'' @ q)"
    by simp
  have d: "digits 2 (p5 @ '':'' @ q) = Some (p5, '':'' @ q)"
    using assms(4,5) by (rule digits_prefix)
  have e: "lit '':'' ('':'' @ q) = Some q"
    by simp
  have f: "digits 2 q = Some (q, [])"
    using digits_prefix [OF assms(6,7), of "[]"] by simp
  show ?thesis
    unfolding match_time_def a b c d e f option.case prod.case ..
qed

lemma match_time_prefix:
  assumes "match_time s = Some (p4, p5, p6, r)"
  shows "\<exists>w. s = w @ r \<and> match_time w = Some (p4, p5, p6, [])"
proof -
  from match_time_Some [OF assms] obtain c where c: "c \<in> set ''T ''" and
    l4: "length p4 = 2" "list_all is_digit p4" and l5: "length p5 = 2" "list_all is_digit p5" and
    rest: "(case p6 of
                None \<Rightarrow> s = c # p4 @ '':'' @ p5 @ r
              | Some q \<Rightarrow> length q = 2 \<and> list_all is_digit q \<and>
                  s = c # p4 @ '':'' @ p5 @ '':'' @ q @ r)"
    by blast
  show ?thesis
  proof (cases p6)
    case None
    with rest have s: "s = (c # p4 @ '':'' @ p5) @ r" by simp
    from s None match_time_build2 [OF c l4 l5] show ?thesis by blast
  next
    case (Some q)
    with rest have s: "s = (c # p4 @ '':'' @ p5 @ '':'' @ q) @ r" and
      l6: "length q = 2" "list_all is_digit q" by simp_all
    from s Some match_time_build3 [OF c l4 l5 l6] show ?thesis by blast
  qed
qed

lemma match_datetime_prefix:
  assumes "match_datetime s = Some m"
  shows "s = matched_text s m @ unmatched m \<and>
         match_datetime (matched_text s m) = Some (m\<lparr>unmatched := []\<rparr>)"
proof -
  from assms obtain p1 s1 s2 p2 s3 s4 p3 s5 where
    d1: "digits 4 s = Some (p1, s1)" and l1: "lit ''-'' s1 = Some s2" and
    d2: "digits 2 s2 = Some (p2, s3)" and l2: "lit ''-'' s3 = Some s4" and
    d3: "digits 2 s4 = Some (p3, s5)" and
    rest: "(case match_time s5 of
         None \<Rightarrow> Some \<lparr>p_year = p1, p_month = p2, p_day = p3, p_hour = None,
                        p_minute = None, p_second = None, unmatched = s5\<rparr>
       | Some (p4, p5, p6, s6) \<Rightarrow>
           Some \<lparr>p_year = p1, p_month = p2, p_day = p3, p_hour = Some p4,
                 p_minute = Some p5, p_second = p6, unmatched = s6\<rparr>) = Some m"
    by (auto simp: match_datetime_def split: option.splits)
  note D1 = digits_Some [OF d1] and D2 = digits_Some [OF d2] and D3 = digits_Some [OF d3]
  from lit_Some [OF l1] have s1: "s1 = CHR ''-'' # s2" by auto
  from lit_Some [OF l2] have s3: "s3 = CHR ''-'' # s4" by auto
  have s: "s = (p1 @ ''-'' @ p2 @ ''-'' @ p3) @ s5"
    using D1 D2 D3 s1 s3 by simp
  have pre: "\<And>w. match_datetime ((p1 @ ''-'' @ p2 @ ''-'' @ p3) @ w) =
      (case match_time w of
         None \<Rightarrow> Some \<lparr>p_year = p1, p_month = p2, p_day = p3, p_hour = None,
                        p_minute = None, p_second = None, unmatched = w\<rparr>
       | Some (p4, p5, p6, s6) \<Rightarrow>
           Some \<lparr>p_year = p1, p_month = p2, p_day = p3, p_hour = Some p4,
                 p_minute = Some p5, p_second = p6, unmatched = s6\<rparr>)"
    using D1 D2 D3 digits_prefix [of p1 4] digits_prefix [of p2 2] digits_prefix [of p3 2]
    by (simp add: match_datetime_def)
  show ?thesis
  proof (cases "match_time s5")
    case None
    with rest have m: "m = \<lparr>p_year = p1, p_month = p2, p_day = p3, p_hour = None,
                        p_minute = None, p_second = None, unmatched = s5\<rparr>" by simp
    have mt: "matched_text s m = p1 @ ''-'' @ p2 @ ''-'' @ p3"
      by (simp add: matched_text_def m s)
    have "match_datetime (matched_text s m) = Some (m\<lparr>unmatched := []\<rparr>)"
      unfolding mt using pre [of "[]"] by (simp add: m match_time_Nil)
    moreover have "s = matched_text s m @ unmatched m"
      unfolding mt using s by (simp add: m)
    ultimately show ?thesis by blast
  next
    case (Some x)
    then obtain p4 p5 p6 s6 where x: "match_time s5 = Some (p4, p5, p6, s6)"
      by (cases x) auto
    with rest have m: "m = \<lparr>p_year = p1, p_month = p2, p_day = p3, p_hour = Some p4,
                 p_minute = Some p5, p_second = p6, unmatched = s6\<rparr>" by simp
    from match_time_prefix [OF x] obtain w where w: "s5 = w @ s6"
      "match_time w = Some (p4, p5, p6, [])" by blast
    have mt: "matched_text s m = (p1 @ ''-'' @ p2 @ ''-'' @ p3) @ w"
      by (simp add: matched_text_def m s w)
    have "match_datetime (matched_text s m) = Some (m\<lparr>unmatched := []\<rparr>)"
      unfolding mt using pre [of w] w(2) by (simp add: m)
    moreover have "s = matched_text s m @ unmatched m"
      unfolding mt using s w(1) by (simp add: m)
    ultimately show ?thesis by blast
  qed
qed

text \<open>The date captures written out again as \<^verbatim>\<open>YYYY-MM-DD\<close>.\<close>

definition date_text :: "dt_match \<Rightarrow> string" where
  "date_text m = p_year m @ ''-'' @ p_month m @ ''-'' @ p_day m"

lemma digit_val_nonneg: "is_digit c \<Longrightarrow> 0 \<le> digit_val c"
  by (auto simp: is_digit_def digit_val_def)

lemma foldl_digits_nonneg:
  "list_all is_digit ds \<Longrightarrow> 0 \<le> a \<Longrightarrow> 0 \<le> foldl (\<lambda>a c. 10 * a + digit_val c) a ds"
proof (induction ds arbitrary: a)
  case Nil
  then show ?case by simp
next
  case (Cons c ds)
  from Cons.prems have "0 \<le> 10 * a + digit_val c"
    using digit_val_nonneg [of c] by simp
  with Cons show ?case by simp
qed

lemma parseInt10_nonneg: "parseInt10 p = Num k \<Longrightarrow> 0 \<le> k"
proof -
  assume a: "parseInt10 p = Num k"
  have "list_all is_digit (takeWhile is_digit p)"
    by (simp add: list_all_iff) (meson set_takeWhileD)
  from foldl_digits_nonneg [OF this, of 0] a show ?thesis
    by (auto simp: parseInt10_def Let_def split: if_splits)
qed

lemma opt_part_nonneg: "opt_part q = Num k \<Longrightarrow> 0 \<le> k"
  by (cases q) (auto dest: parseInt10_nonneg split: if_splits)

lemma match_datetime_nonempty: "match_datetime s = Some m \<Longrightarrow> s \<noteq> []"
  by (auto simp: match_datetime_def digits_def split: option.splits if_splits)

lemma match_datetime_date_text:
  assumes "match_datetime s = Some m"
  shows "match_date (date_text m) = Some (p_year m, p_month m, p_day m)"
proof -
  from assms obtain p1 s1 s2 p2 s3 s4 p3 s5 where
    d1: "digits 4 s = Some (p1, s1)" and
    d2: "digits 2 s2 = Some (p2, s3)" and
    d3: "digits 2 s4 = Some (p3, s5)" and
    m: "p_year m = p1" "p_month m = p2" "p_day m = p3"
    by (auto simp: match_datetime_def split: option.splits)
  note D1 = digits_Some [OF d1] and D2 = digits_Some [OF d2] and D3 = digits_Some [OF d3]
  have a: "digits 4 (p1 @ ''-'' @ p2 @ ''-'' @ p3) = Some (p1, ''-'' @ p2 @ ''-'' @ p3)"
    using D1 by (intro digits_prefix) simp_all
  have b: "lit ''-'' (''-'' @ p2 @ ''-'' @ p3) = Some (p2 @ ''-'' @ p3)"
    by simp
  have c: "digits 2 (p2 @ ''-'' @ p3) = Some (p2, ''-'' @ p3)"
    using D2 by (intro digits_prefix) simp_all
  have d: "lit ''-'' (''-'' @ p3) = Some p3"
    by simp
  have e: "digits 2 p3 = Some (p3, [])"
    using digits_prefix [of p3 2 "[]"] D3 by simp
  show ?thesis
    unfolding date_text_def m match_date_def a b c d e option.case prod.case by simp
qed

lemma parseISODateTime_eval:
  assumes "match_datetime s = Some m"
    "parseInt10 (p_year m) = Num y" "parseInt10 (p_month m) = Num mo"
    "parseInt10 (p_day m) = Num d" "opt_part (p_hour m) = Num h"
    "opt_part (p_minute m) = Num mi" "opt_part (p_second m) = Num se"
  shows "parseISODateTime s =
           read_back (Date_UTC y (mo - 1) d h mi se) (Num y) (Num (mo - 1)) (Num d)"
  using assms match_datetime_nonempty [OF assms(1)]
  by (simp add: parseISODateTime_def Let_def)

lemma parseISODate_eval:
  assumes "match_date s = Some (p1, p2, p3)"
    "parseInt10 p1 = Num y" "parseInt10 p2 = Num mo" "parseInt10 p3 = Num d"
  shows "parseISODate s =
           read_back (Date_UTC y (mo - 1) d 0 0 0) (Num y) (Num (mo - 1)) (Num d)"
  using assms match_date_parts [OF assms(1)]
  by (simp add: parseISODate_def Let_def)

lemma read_back_same_day:
  "Day t = Day t0 \<Longrightarrow>
   read_back (Num t) y m d =
     (case read_back (Num t0) y m d of None \<Rightarrow> None | Some _ \<Rightarrow> Some (Num t))"
  using getters_same_day [of t t0] by (simp add: read_back_def)

lemma Date_UTC_time:
  assumes "Date_UTC y m d h mi se = Num t" "Date_UTC y m d 0 0 0 = Num t0"
    "0 \<le> MakeTime h mi se 0" "MakeTime h mi se 0 < msPerDay"
  shows "t = t0 + MakeTime h mi se 0 \<and> Day t = Day t0"
proof -
  define yr where "yr = (if 0 \<le> y \<and> y \<le> 99 then 1900 + y else y)"
  from assms(1) have t: "t = MakeDate (MakeDay yr m d) (MakeTime h mi se 0)"
    by (auto simp: Date_UTC_def Let_def TimeClip_def yr_def split: if_splits)
  from assms(2) have t0: "t0 = MakeDate (MakeDay yr m d) 0"
    by (auto simp: Date_UTC_def Let_def TimeClip_def yr_def MakeTime_def split: if_splits)
  have "Day t = MakeDay yr m d"
    unfolding t using assms(3,4) by (rule Day_MakeDate)
  moreover have "Day t0 = MakeDay yr m d"
    unfolding t0 by (rule Day_MakeDate) (simp_all add: msPerDay_def)
  moreover have "t = t0 + MakeTime h mi se 0"
    by (simp add: t t0 MakeDate_def)
  ultimately show ?thesis by simp
qed

lemma parseISODateTime_trailing:
  assumes "match_datetime s = Some m"
  shows "s = matched_text s m @ unmatched m \<and>
         parseISODateTime s = parseISODateTime (matched_text s m)"
proof -
  note P = match_datetime_prefix [OF assms]
  from P have m': "match_datetime (matched_text s m) = Some (m\<lparr>unmatched := []\<rparr>)"
    by blast
  have "parseISODateTime s = parseISODateTime (matched_text s m)"
    using assms m' match_datetime_nonempty [OF assms] match_datetime_nonempty [OF m']
    by (simp add: parseISODateTime_def)
  with P show ?thesis by blast
qed

lemma parseISODateTime_time_of_day:
  assumes m: "match_datetime s = Some m"
    and y: "parseInt10 (p_year m) = Num y" and mo: "parseInt10 (p_month m) = Num mo"
    and d: "parseInt10 (p_day m) = Num d" and h: "opt_part (p_hour m) = Num h"
    and mi: "opt_part (p_minute m) = Num mi" and se: "opt_part (p_second m) = Num se"
    and lt: "MakeTime h mi se 0 < msPerDay"
    and t: "Date_UTC y (mo - 1) d h mi se = Num t"
    and t0: "Date_UTC y (mo - 1) d 0 0 0 = Num t0"
  shows "t = t0 + MakeTime h mi se 0 \<and>
         parseISODateTime s =
           (case parseISODate (date_text m) of None \<Rightarrow> None | Some _ \<Rightarrow> Some (Num t))"
proof -
  have ge: "0 \<le> MakeTime h mi se 0"
    using opt_part_nonneg [OF h] opt_part_nonneg [OF mi] opt_part_nonneg [OF se]
    by (simp add: MakeTime_def)
  from Date_UTC_time [OF t t0 ge lt] have tt: "t = t0 + MakeTime h mi se 0"
    by (rule conjunct1)
  from Date_UTC_time [OF t t0 ge lt] have day: "Day t = Day t0"
    by (rule conjunct2)
  have a: "parseISODateTime s = read_back (Num t) (Num y) (Num (mo - 1)) (Num d)"
    using parseISODateTime_eval [OF m y mo d h mi se] t by simp
  have b: "parseISODate (date_text m) = read_back (Num t0) (Num y) (Num (mo - 1)) (Num d)"
    using parseISODate_eval [OF match_datetime_date_text [OF m] y mo d] t0 by simp
  from a b read_back_same_day [OF day] tt show ?thesis by simp
qed

text \<open>
  C10. \<^verbatim>\<open>parseISODateTime\<close> checks the calendar date only. What follows the matched
  text plays no part: the result for an input is the result for its matched prefix.
  When the captured hour, minute and second add up to less than a day, whatever their
  single values, the input is accepted exactly when \<^verbatim>\<open>parseISODate\<close> accepts its date
  part, and the instant returned is that date's midnight plus the time given: so
  \<^verbatim>\<open>2023-01-15T00:99\<close> is read as 01:39 of the same day, with or without text after
  it, while \<^verbatim>\<open>2023-01-15T23:99\<close>, which rolls into the next day, gives \<^verbatim>\<open>null\<close>.
\<close>

theorem parseISODateTime_lenient:
  "(match_datetime s = Some m \<longrightarrow>
      s = matched_text s m @ unmatched m \<and>
      parseISODateTime s = parseISODateTime (matched_text s m)) \<and>
   (match_datetime s = Some m \<and>
    parseInt10 (p_year m) = Num y \<and> parseInt10 (p_month m) = Num mo \<and>
    parseInt10 (p_day m) = Num d \<and> opt_part (p_hour m) = Num h \<and>
    opt_part (p_minute m) = Num mi \<and> opt_part (p_second m) = Num se \<and>
    MakeTime h mi se 0 < msPerDay \<and>
    Date_UTC y (mo - 1) d h mi se = Num t \<and> Date_UTC y (mo - 1) d 0 0 0 = Num t0 \<longrightarrow>
      t = t0 + MakeTime h mi se 0 \<and>
      parseISODateTime s =
        (case parseISODate (date_text m) of None \<Rightarrow> None | Some _ \<Rightarrow> Some (Num t))) \<and>
   parseISODateTime ''2023-01-15T00:99'' = Some (Num 1673746740000) \<and>
   parseISODateTime ''2023-01-15T01:39:00'' = Some (Num 1673746740000) \<and>
   parseISODateTime ''2023-01-15T00:99 and more'' = Some (Num 1673746740000) \<and>
   parseISODateTime ''2023-01-15T23:99'' = None"
proof -
  have e1: "parseISODateTime ''2023-01-15T00:99'' = Some (Num 1673746740000)"
    by code_simp
  have e2: "parseISODateTime ''2023-01-15T01:39:00'' = Some (Num 1673746740000)"
    by code_simp
  have e3: "parseISODateTime ''2023-01-15T00:99 and more'' = Some (Num 1673746740000)"
    by code_simp
  have e4: "parseISODateTime ''2023-01-15T23:99'' = None"
    by code_simp
  from parseISODateTime_trailing [of s m]
    parseISODateTime_time_of_day [of s m y mo d h mi se t t0] e1 e2 e3 e4
  show ?thesis by blast
qed

definition demo_match :: dt_match where
  "demo_match = \<lparr>p_year = ''2023'', p_month = ''01'', p_day = ''15'', p_hour = Some ''00'',
                  p_minute = Some ''99'', p_second = None, unmatched = ''Zulu''\<rparr>"

theorem parseISODateTime_lenient_witness:
  "match_datetime ''2023-01-15T00:99Zulu'' = Some demo_match \<and>
   matched_text ''2023-01-15T00:99Zulu'' demo_match = ''2023-01-15T00:99'' \<and>
   parseInt10 (p_year demo_match) = Num 2023 \<and> parseInt10 (p_month demo_match) = Num 1 \<and>
   parseInt10 (p_day demo_match) = Num 15 \<and> opt_part (p_hour demo_match) = Num 0 \<and>
   opt_part (p_minute demo_match) = Num 99 \<and> opt_part (p_second demo_match) = Num 0 \<and>
   MakeTime 0 99 0 0 < msPerDay \<and>
   Date_UTC 2023 0 15 0 99 0 = Num 1673746740000 \<and>
   Date_UTC 2023 0 15 0 0 0 = Num 1673740800000 \<and>
   parseISODate (date_text demo_match) = Some (Num 1673740800000) \<and>
   parseISODateTime ''2023-01-15T00:99Zulu'' = Some (Num 1673746740000) \<and>
   parseISODateTime ''2023-01-15T00:99Zulu'' = parseISODateTime ''2023-01-15T00:99''"
proof -
  have a: "match_datetime ''2023-01-15T00:99Zulu'' = Some demo_match"
    unfolding demo_match_def by code_simp
  have b: "matched_text ''2023-01-15T00:99Zulu'' demo_match = ''2023-01-15T00:99''"
    unfolding demo_match_def by code_simp
  have c: "parseInt10 (p_year demo_match) = Num 2023 \<and>
           parseInt10 (p_month demo_match) = Num 1 \<and>
           parseInt10 (p_day demo_match) = Num 15 \<and> opt_part (p_hour demo_match) = Num 0 \<and>
           opt_part (p_minute demo_match) = Num 99 \<and> opt_part (p_second demo_match) = Num 0"
    unfolding demo_match_def by code_simp
  have d: "MakeTime 0 99 0 0 < msPerDay"
    by (simp add: MakeTime_def msPerDay_def)
  have e: "Date_UTC 2023 0 15 0 99 0 = Num 1673746740000"
    by code_simp
  have f: "Date_UTC 2023 0 15 0 0 0 = Num 1673740800000"
    by code_simp
  have g: "parseISODate (date_text demo_match) = Some (Num 1673740800000)"
    unfolding demo_match_def by code_simp
  note T = parseISODateTime_lenient [of "''2023-01-15T00:99Zulu''" demo_match 2023 1 15 0 99 0
      1673746740000 1673740800000]
  from T a have h1: "parseISODateTime ''2023-01-15T00:99Zulu'' =
      parseISODateTime (matched_text ''2023-01-15T00:99Zulu'' demo_match)"
    by blast
  from e have e': "Date_UTC 2023 (1 - 1) 15 0 99 0 = Num 1673746740000"
    by simp
  from f have f': "Date_UTC 2023 (1 - 1) 15 0 0 0 = Num 1673740800000"
    by simp
  from T a c d e' f' have h2: "parseISODateTime ''2023-01-15T00:99Zulu'' =
      (case parseISODate (date_text demo_match) of None \<Rightarrow> None
       | Some _ \<Rightarrow> Some (Num 1673746740000))"
    by blast
  have h3: "parseISODateTime ''2023-01-15T00:99Zulu'' = Some (Num 1673746740000)"
    unfolding h2 g by simp
  from h1 have h4: "parseISODateTime ''2023-01-15T00:99Zulu'' =
      parseISODateTime ''2023-01-15T00:99''"
    by (simp only: b)
  from a b c d e f g h3 h4 show ?thesis by blast
qed

section \<open>Formatting fallbacks\<close>

text \<open>
  C7, as the claim states it, fails on the date-time path: with a locale facility that
  throws for the requested style and would answer the medium UTC retry,
  \<^verbatim>\<open>formatDateTimeWithIntl\<close> does not retry but returns the ISO string of the date, and
  with a facility that always throws it returns that ISO string, not \<^verbatim>\<open>2023-06-15\<close>.
\<close>

theorem formatDateTime_single_fallback:
  "formatDateWithIntl intl_medium_only (Some (Num 1686787200000)) ''locale-short'' ''en-US'' =
     Inr (two_level_fallback intl_medium_only ''en-US'' (date_options ''locale-short'')
            1686787200000) \<and>
   two_level_fallback intl_medium_only ''en-US''
     (datetime_options ''locale-short'' False False True) 1686787200000 = ''Jun 15, 2023'' \<and>
   formatDateTimeWithIntl intl_medium_only (Some (Num 1686787200000)) ''locale-short''
     ''en-US'' False False True = Inr ''2023-06-15T00:00:00.000Z'' \<and>
   two_level_fallback intl_unusable ''en-US''
     (datetime_options ''locale-short'' False False True) 1686787200000 = ''2023-06-15'' \<and>
   formatDateTimeWithIntl intl_unusable (Some (Num 1686787200000)) ''locale-short''
     ''en-US'' False False True = Inr ''2023-06-15T00:00:00.000Z'' \<and>
   formatDateTimeWithIntl intl_medium_only (Some (Num 1686787200000)) ''locale-short''
     ''en-US'' False False True \<noteq>
     Inr (two_level_fallback intl_medium_only ''en-US''
            (datetime_options ''locale-short'' False False True) 1686787200000)"
  by code_simp

text \<open>
  C7, amended. Neither formatter lets an error out. \<^verbatim>\<open>formatDateWithIntl\<close> absorbs a
  failure of the locale facility by the two-level chain (retry with the medium UTC
  style, then the manually composed date); \<^verbatim>\<open>formatDateTimeWithIntl\<close> absorbs it in
  one step, by the ISO string of the date. Both return the empty string for a missing
  or invalid date.
\<close>

theorem format_fallbacks:
  "formatDateWithIntl intl (Some (Num t)) format localeTag =
     Inr (two_level_fallback intl localeTag (date_options format) t) \<and>
   formatDateTimeWithIntl intl (Some (Num t)) format localeTag withTime withSeconds with24Hours =
     Inr (case intl localeTag (datetime_options format withTime withSeconds with24Hours) t of
            Inr s \<Rightarrow> s
          | Inl e \<Rightarrow>
              iso_year (YearFromTime t) @ ''-'' @ two (MonthFromTime t + 1) @ ''-'' @
              two (DateFromTime t) @ ''T'' @ two ((t div 3600000) mod 24) @ '':'' @
              two ((t div 60000) mod 60) @ '':'' @ two ((t div 1000) mod 60) @ ''.'' @
              padStart 3 CHR ''0'' (dec (nat (t mod 1000))) @ ''Z'') \<and>
   formatDateWithIntl intl None format localeTag = Inr [] \<and>
   formatDateWithIntl intl (Some NaN) format localeTag = Inr [] \<and>
   formatDateTimeWithIntl intl None format localeTag withTime withSeconds with24Hours = Inr [] \<and>
   formatDateTimeWithIntl intl (Some NaN) format localeTag withTime withSeconds with24Hours =
     Inr []"
  by (simp add: formatDateWithIntl_def formatDateTimeWithIntl_def two_level_fallback_def
      split: sum.splits)

section \<open>The selection control: selection and the hidden field\<close>

lemma refresh_fst:
  "selectedValues (fst (refresh p it c)) = selectedValues (fst c) \<and>
   opt_multiple (fst (refresh p it c)) = opt_multiple (fst c) \<and>
   isSelecting (fst (refresh p it c)) = isSelecting (fst c)"
  by (cases c)
    (simp add: refresh_def dispatch_def updateResetButtonVisibility_def updateHiddenInput_def
      updateDisplay_def Let_def)

lemma refresh_observed:
  "observed (snd (refresh p it c)) =
     observed (snd c) @
     (if hiddenInput_value (snd c) \<noteq> join_comma (selectedValues (fst c)) then [FieldChange]
      else []) @
     [SelectboxChange (getValue (fst c)) p it]"
  by (cases c)
    (simp add: refresh_def dispatch_def updateResetButtonVisibility_def updateHiddenInput_def
      updateDisplay_def Let_def getValue_def)

lemma refresh_hidden:
  "hiddenInput_value (snd (refresh p it c)) = join_comma (selectedValues (fst c))"
  by (cases c)
    (simp add: refresh_def dispatch_def updateResetButtonVisibility_def updateHiddenInput_def
      updateDisplay_def Let_def)

lemma refresh_getValue: "getValue (fst (refresh p it c)) = getValue (fst c)"
  by (simp add: getValue_def refresh_fst)

lemma selectItem_single_size:
  "\<not> opt_multiple i \<Longrightarrow> \<not> isSelecting i \<Longrightarrow> wired i \<Longrightarrow> k < length (items d) \<Longrightarrow>
   \<exists>c. selectItem k (i, d) = Inr c \<and> selectedValues (fst c) = [data_value (items d ! k)]"
  by (simp add: selectItem_def Let_def refresh_fst set_add_def)

lemma reset_empties: "reset c = Inr c' \<Longrightarrow> selectedValues (fst c') = []"
  by (cases c)
    (auto simp: reset_def Let_def dispatch_def updateResetButtonVisibility_def
      split: option.splits if_splits)

lemma first_index_None: "first_index P xs = None \<longleftrightarrow> (\<forall>x \<in> set xs. \<not> P x)"
  by (induction xs) auto

lemma first_index_Some: "first_index P xs = Some k \<Longrightarrow> k < length xs \<and> P (xs ! k)"
proof (induction xs arbitrary: k)
  case Nil
  then show ?case by simp
next
  case (Cons x xs)
  then show ?case by (cases "P x") auto
qed

lemma mark_values: "map data_value (mark k b its) = map data_value its"
proof (rule nth_equalityI)
  show "length (map data_value (mark k b its)) = length (map data_value its)"
    by (simp add: mark_def)
next
  fix j
  assume "j < length (map data_value (mark k b its))"
  then have j: "j < length its" by (simp add: mark_def)
  show "map data_value (mark k b its) ! j = map data_value its ! j"
  proof (cases "j = k")
    case True
    with j show ?thesis by (simp add: mark_def)
  next
    case False
    with j show ?thesis by (simp add: mark_def)
  qed
qed

lemma deselect_values: "map data_value (deselect_all its) = map data_value its"
  by (simp add: deselect_all_def)

lemma standard_plain_engine: "standard_on_plain plain_engine"
  by (simp add: standard_on_plain_def plain_engine_def)

text \<open>On plain values every standard engine does what the test engine does.\<close>

lemma select_values_standard:
  "standard_on_plain qs \<Longrightarrow> \<forall>v. Some v \<in> set vals \<longrightarrow> css_plain v \<Longrightarrow>
   select_values qs vals c = select_values plain_engine vals c"
proof (induction vals arbitrary: c)
  case Nil
  then show ?case by simp
next
  case (Cons x vals)
  show ?case
  proof (cases x)
    case None
    with Cons show ?thesis by simp
  next
    case (Some v)
    with Cons.prems have p: "css_plain v" by simp
    with Cons.prems(1) have q: "qs v (items (snd c)) = plain_engine v (items (snd c))"
      by (simp add: standard_on_plain_def plain_engine_def)
    from Cons.prems have ih: "\<And>c. select_values qs vals c = select_values plain_engine vals c"
      using Cons.IH by simp
    show ?thesis
      by (simp add: Some q ih split: sum.splits option.splits)
  qed
qed

lemma setValue_standard:
  "standard_on_plain qs \<Longrightarrow>
   \<forall>x. Some x \<in> set (case v of One x \<Rightarrow> [x] | Many xs \<Rightarrow> xs) \<longrightarrow> css_plain x \<Longrightarrow>
   setValue qs v c = setValue plain_engine v c"
  by (cases c) (simp add: setValue_def Let_def select_values_standard)

text \<open>The loop changes the selection and the items only.\<close>

lemma select_values_frame:
  "select_values qs vals c = Inr c' \<Longrightarrow>
   \<exists>sel its. c' = ((fst c)\<lparr>selectedValues := sel\<rparr>, (snd c)\<lparr>items := its\<rparr>)"
proof (induction vals arbitrary: c)
  case Nil
  then have "c' = ((fst c)\<lparr>selectedValues := selectedValues (fst c)\<rparr>,
                   (snd c)\<lparr>items := items (snd c)\<rparr>)"
    by simp
  then show ?case by blast
next
  case (Cons x vals)
  show ?case
  proof (cases x)
    case None
    with Cons show ?thesis by simp
  next
    case (Some v)
    show ?thesis
    proof (cases "qs v (items (snd c))")
      case (Inl e)
      with Cons.prems Some show ?thesis by simp
    next
      case (Inr r)
      show ?thesis
      proof (cases r)
        case None
        with Cons Some Inr show ?thesis by simp
      next
        case (Some k)
        define c1 where "c1 = ((fst c)\<lparr>selectedValues := set_add v (selectedValues (fst c))\<rparr>,
             (snd c)\<lparr>items := mark k True (items (snd c))\<rparr>)"
        from Cons.prems \<open>x = Some v\<close> Inr Some have "select_values qs vals c1 = Inr c'"
          by (simp add: c1_def)
        from Cons.IH [OF this] obtain sel its where
          "c' = ((fst c1)\<lparr>selectedValues := sel\<rparr>, (snd c1)\<lparr>items := its\<rparr>)"
          by blast
        then have "c' = ((fst c)\<lparr>selectedValues := sel\<rparr>, (snd c)\<lparr>items := its\<rparr>)"
          by (simp add: c1_def)
        then show ?thesis by blast
      qed
    qed
  qed
qed

lemma select_values_matching:
  "set vs \<subseteq> set (map data_value (items d)) \<Longrightarrow> list_all css_plain vs \<Longrightarrow>
   \<exists>its. select_values plain_engine (map Some vs) (i, d) =
           Inr (i\<lparr>selectedValues := fold set_add vs (selectedValues i)\<rparr>, d\<lparr>items := its\<rparr>) \<and>
         map data_value its = map data_value (items d)"
proof (induction vs arbitrary: i d)
  case Nil
  have "(i, d) = (i\<lparr>selectedValues := selectedValues i\<rparr>, d\<lparr>items := items d\<rparr>)"
    by simp
  then show ?case by (metis fold_simps(1) list.simps(8) select_values.simps(1))
next
  case (Cons v vs)
  from Cons.prems have v: "v \<in> set (map data_value (items d))" and p: "css_plain v"
    by simp_all
  from v have "first_index (\<lambda>it. data_value it = v) (items d) \<noteq> None"
    by (auto simp: first_index_None)
  then obtain k where k: "first_index (\<lambda>it. data_value it = v) (items d) = Some k"
    by blast
  define i1 where "i1 = i\<lparr>selectedValues := set_add v (selectedValues i)\<rparr>"
  define d1 where "d1 = d\<lparr>items := mark k True (items d)\<rparr>"
  have step: "select_values plain_engine (map Some (v # vs)) (i, d) =
      select_values plain_engine (map Some vs) (i1, d1)"
    using p k by (simp add: plain_engine_def i1_def d1_def)
  have dv: "map data_value (items d1) = map data_value (items d)"
    by (simp add: d1_def mark_values)
  from Cons.prems dv have "set vs \<subseteq> set (map data_value (items d1))" "list_all css_plain vs"
    by simp_all
  from Cons.IH [OF this, of i1] obtain its where
    r: "select_values plain_engine (map Some vs) (i1, d1) =
        Inr (i1\<lparr>selectedValues := fold set_add vs (selectedValues i1)\<rparr>, d1\<lparr>items := its\<rparr>)" and
    m: "map data_value its = map data_value (items d1)"
    by blast
  have "select_values plain_engine (map Some (v # vs)) (i, d) =
      Inr (i\<lparr>selectedValues := fold set_add (v # vs) (selectedValues i)\<rparr>, d\<lparr>items := its\<rparr>)"
    unfolding step r by (simp add: i1_def d1_def)
  with m dv show ?case by metis
qed

lemma set_fold_set_add: "set (fold set_add vs xs) = set xs \<union> set vs"
  by (induction vs arbitrary: xs) (auto simp: set_add_def)

lemma setValue_matching:
  assumes "wired i" "set vs \<subseteq> set (map data_value (items d))" "list_all css_plain vs"
  shows "\<exists>c. setValue plain_engine (Many (map Some vs)) (i, d) = Inr c \<and>
             selectedValues (fst c) = fold set_add vs [] \<and>
             opt_multiple (fst c) = opt_multiple i"
proof -
  define i0 where "i0 = i\<lparr>selectedValues := []\<rparr>"
  define d0 where "d0 = d\<lparr>items := deselect_all (items d)\<rparr>"
  have "set vs \<subseteq> set (map data_value (items d0))"
    using assms(2) by (simp add: d0_def deselect_values)
  from select_values_matching [OF this assms(3), of i0] obtain its where
    r: "select_values plain_engine (map Some vs) (i0, d0) =
        Inr (i0\<lparr>selectedValues := fold set_add vs (selectedValues i0)\<rparr>, d0\<lparr>items := its\<rparr>)"
    by blast
  define c1 where "c1 = (i0\<lparr>selectedValues := fold set_add vs (selectedValues i0)\<rparr>, d0\<lparr>items := its\<rparr>)"
  have "setValue plain_engine (Many (map Some vs)) (i, d) = Inr (refresh (selectedValues i) None c1)"
    using assms(1) r
    by (simp add: setValue_def Let_def wired_def i0_def [symmetric] d0_def [symmetric] c1_def)
  moreover have "selectedValues (fst (refresh (selectedValues i) None c1)) = fold set_add vs []"
    by (simp add: refresh_fst c1_def i0_def)
  moreover have "opt_multiple (fst (refresh (selectedValues i) None c1)) = opt_multiple i"
    by (simp add: refresh_fst c1_def i0_def)
  ultimately show ?thesis by blast
qed

text \<open>On an object that is not wired the methods throw.\<close>

lemma setValue_unwired: "\<not> wired i \<Longrightarrow> \<exists>e. setValue qs v (i, d) = Inl e"
  by (auto simp: setValue_def wired_def Let_def split: sum.splits)

lemma reset_unwired: "\<not> wired i \<Longrightarrow> reset (i, d) = Inl TypeError"
  by (simp add: reset_def)

lemma selectItem_unwired:
  "\<not> isSelecting i \<Longrightarrow> \<not> wired i \<Longrightarrow> selectItem k (i, d) = Inl TypeError"
  by (simp add: selectItem_def)

lemma setValue_field_change:
  assumes "setValue qs v c = Inr c'"
  shows "observed (snd c') =
     observed (snd c) @
     (if hiddenInput_value (snd c) \<noteq> hiddenInput_value (snd c') then [FieldChange] else []) @
     [SelectboxChange (getValue (fst c')) (selectedValues (fst c)) None]"
proof (cases c)
  case (Pair i d)
  define c0 where "c0 = (i\<lparr>selectedValues := []\<rparr>, d\<lparr>items := deselect_all (items d)\<rparr>)"
  define vals where "vals = (case v of One x \<Rightarrow> [x] | Many xs \<Rightarrow> xs)"
  from assms obtain c1 where c1: "select_values qs vals c0 = Inr c1"
    and sv: "c' = refresh (selectedValues i) None c1"
    by (auto simp: Pair setValue_def Let_def c0_def [symmetric] vals_def [symmetric]
        split: if_splits sum.splits)
  from select_values_frame [OF c1] have
    fr: "hiddenInput_value (snd c1) = hiddenInput_value d" "observed (snd c1) = observed d"
    by (auto simp: c0_def)
  show ?thesis
    unfolding sv refresh_getValue refresh_observed refresh_hidden by (simp add: Pair fr)
qed

lemma selectItem_field_change:
  "\<not> isSelecting (fst c) \<Longrightarrow> k < length (items (snd c)) \<Longrightarrow> selectItem k c = Inr c' \<Longrightarrow>
   observed (snd c') =
     observed (snd c) @
     (if hiddenInput_value (snd c) \<noteq> hiddenInput_value (snd c') then [FieldChange] else []) @
     [SelectboxChange (getValue (fst c')) (selectedValues (fst c)) (Some k)]"
  by (cases c)
    (auto simp: selectItem_def Let_def refresh_observed refresh_hidden refresh_fst getValue_def
      split: if_splits)

text \<open>
  C3. In single-selection mode \<^verbatim>\<open>selectItem\<close> and \<^verbatim>\<open>reset\<close> keep at most one selected
  value (\<open>selectItem_single_size\<close>, \<open>reset_empties\<close>), but \<^verbatim>\<open>setValue\<close> never
  looks at the mode: on the single-selection control with options a, b, c, whatever
  selector engine is standard on plain values, \<^verbatim>\<open>setValue(['a', 'b'])\<close> returns, leaves
  two selected values, writes \<^verbatim>\<open>a,b\<close> to the hidden field, and \<^verbatim>\<open>getValue()\<close> then
  reports \<^verbatim>\<open>a\<close> alone.
\<close>

theorem setValue_single_mode_two_values:
  "opt_multiple (fst single_demo) = False \<and>
   selectedValues (fst single_demo) = [] \<and>
   map data_value (items (snd single_demo)) = [''a'', ''b'', ''c''] \<and>
   (standard_on_plain qs \<longrightarrow>
      (\<exists>c. setValue qs (Many [Some ''a'', Some ''b'']) single_demo = Inr c \<and>
           selectedValues (fst c) = [''a'', ''b''] \<and>
           length (selectedValues (fst c)) = 2 \<and>
           hiddenInput_value (snd c) = ''a,b'' \<and>
           getValue (fst c) = Single (Some ''a'')))"
proof -
  have a: "opt_multiple (fst single_demo) = False \<and>
     selectedValues (fst single_demo) = [] \<and>
     map data_value (items (snd single_demo)) = [''a'', ''b'', ''c'']"
    by code_simp
  have p: "css_plain ''a'' \<and> css_plain ''b''"
    by code_simp
  have e: "case setValue plain_engine (Many [Some ''a'', Some ''b'']) single_demo of
       Inl x \<Rightarrow> False
     | Inr c \<Rightarrow> selectedValues (fst c) = [''a'', ''b''] \<and>
           length (selectedValues (fst c)) = 2 \<and>
           hiddenInput_value (snd c) = ''a,b'' \<and>
           getValue (fst c) = Single (Some ''a'')"
    by code_simp
  have b: "\<exists>c. setValue qs (Many [Some ''a'', Some ''b'']) single_demo = Inr c \<and>
           selectedValues (fst c) = [''a'', ''b''] \<and>
           length (selectedValues (fst c)) = 2 \<and>
           hiddenInput_value (snd c) = ''a,b'' \<and>
           getValue (fst c) = Single (Some ''a'')" if s: "standard_on_plain qs"
  proof -
    have "setValue qs (Many [Some ''a'', Some ''b'']) single_demo =
          setValue plain_engine (Many [Some ''a'', Some ''b'']) single_demo"
      using p by (intro setValue_standard [OF s]) auto
    with e show ?thesis
      by (cases "setValue plain_engine (Many [Some ''a'', Some ''b'']) single_demo") simp_all
  qed
  from a b show ?thesis by blast
qed

theorem setValue_single_mode_two_values_witness:
  "standard_on_plain plain_engine \<and>
   value_after (setValue plain_engine (Many [Some ''a'', Some ''b'']) single_demo) =
     Inr (Single (Some ''a'')) \<and>
   (\<exists>c. setValue plain_engine (Many [Some ''a'', Some ''b'']) single_demo = Inr c \<and>
        length (selectedValues (fst c)) = 2)"
proof -
  have s: "standard_on_plain plain_engine"
    by (simp add: standard_on_plain_def plain_engine_def)
  from s setValue_single_mode_two_values [of plain_engine] obtain c where
    c: "setValue plain_engine (Many [Some ''a'', Some ''b'']) single_demo = Inr c"
       "length (selectedValues (fst c)) = 2" "getValue (fst c) = Single (Some ''a'')"
    by blast
  from c have "value_after (setValue plain_engine (Many [Some ''a'', Some ''b'']) single_demo) =
     Inr (Single (Some ''a''))"
    by (simp add: value_after_def)
  with s c show ?thesis by blast
qed

text \<open>
  C6. \<^verbatim>\<open>selectItem\<close> and \<^verbatim>\<open>setValue\<close> go through \<^verbatim>\<open>updateHiddenInput\<close> and dispatch
  the field's change event exactly when the joined value differs from the old one
  (\<open>selectItem_field_change\<close>, \<open>setValue_field_change\<close>). \<^verbatim>\<open>reset\<close> writes the
  field itself and dispatches without comparing: on a control with nothing selected and
  an empty hidden field, \<^verbatim>\<open>reset()\<close> returns, leaves the field empty and still
  dispatches the field's change event.
\<close>

theorem reset_empty_control_fires_change:
  "selectedValues (fst single_demo) = [] \<and>
   hiddenInput_value (snd single_demo) = [] \<and>
   (\<exists>c. reset single_demo = Inr c \<and>
        hiddenInput_value (snd c) = [] \<and>
        observed (snd c) = observed (snd single_demo) @ [FieldChange, SearchInput, SelectboxReset []])"
proof -
  have a: "selectedValues (fst single_demo) = [] \<and> hiddenInput_value (snd single_demo) = []"
    by code_simp
  have e: "case reset single_demo of
       Inl x \<Rightarrow> False
     | Inr c \<Rightarrow> hiddenInput_value (snd c) = [] \<and>
        observed (snd c) = observed (snd single_demo) @ [FieldChange, SearchInput, SelectboxReset []]"
    by code_simp
  then have "\<exists>c. reset single_demo = Inr c \<and>
        hiddenInput_value (snd c) = [] \<and>
        observed (snd c) = observed (snd single_demo) @ [FieldChange, SearchInput, SelectboxReset []]"
    by (cases "reset single_demo") simp_all
  with a show ?thesis by blast
qed

section \<open>The selection round trip\<close>

text \<open>
  The comparison of the round trip as the specification words it: set equality in
  multiple mode, the very value in single mode (a sequence of one value counting as
  that value).
\<close>

fun same_value :: "getval \<Rightarrow> setval \<Rightarrow> bool" where
  "same_value (Multi xs) (Many vs) = (set (map Some xs) = set vs)"
| "same_value (Multi xs) (One v) = (set (map Some xs) = {v})"
| "same_value (Single x) (One v) = (x = v)"
| "same_value (Single x) (Many vs) = (vs = [x])"

text \<open>
  C8, as the claim states it, fails in single-selection mode for a sequence of more than
  one value: on the single-selection control with options a, b, c, all its sub-elements
  found, after \<^verbatim>\<open>setValue(['a', 'b'])\<close> the result of \<^verbatim>\<open>getValue()\<close> is \<^verbatim>\<open>a\<close>.
\<close>

theorem setValue_getValue_single_sequence:
  "opt_multiple (fst single_demo) = False \<and>
   wired (fst single_demo) \<and>
   set [''a'', ''b''] \<subseteq> set (map data_value (items (snd single_demo))) \<and>
   list_all css_plain [''a'', ''b''] \<and>
   value_after (setValue plain_engine (Many [Some ''a'', Some ''b'']) single_demo) =
     Inr (Single (Some ''a'')) \<and>
   \<not> same_value (Single (Some ''a'')) (Many [Some ''a'', Some ''b''])"
  by code_simp

text \<open>
  C8, amended. Take an object whose constructor found all its sub-elements
  (\<open>wired\<close>), a selector engine that is standard on plain values, and values that all
  match existing options and hold no double quote, backslash, line break or NUL. Then
  \<^verbatim>\<open>setValue(v)\<close> returns, and \<^verbatim>\<open>getValue()\<close> after it yields, in multiple mode, the
  values of \<open>v\<close> as a set, for a sequence and for a single value alike; in single mode
  it yields exactly \<open>v\<close> when \<open>v\<close> is a single value or a sequence of one value.
  On an object that is not wired \<^verbatim>\<open>setValue\<close> throws (\<open>setValue_unwired\<close>).
\<close>

theorem setValue_getValue_round_trip:
  "standard_on_plain qs \<and> wired i \<and>
   set vs \<subseteq> set (map data_value (items d)) \<and> a \<in> set (map data_value (items d)) \<and>
   list_all css_plain (a # vs) \<longrightarrow>
     (opt_multiple i \<longrightarrow>
        (\<exists>g. value_after (setValue qs (Many (map Some vs)) (i, d)) = Inr g \<and>
             same_value g (Many (map Some vs))) \<and>
        (\<exists>g. value_after (setValue qs (One (Some a)) (i, d)) = Inr g \<and>
             same_value g (One (Some a)))) \<and>
     (\<not> opt_multiple i \<longrightarrow>
        value_after (setValue qs (One (Some a)) (i, d)) = Inr (Single (Some a)) \<and>
        value_after (setValue qs (Many [Some a]) (i, d)) = Inr (Single (Some a)))"
proof (intro impI, elim conjE)
  assume s: "standard_on_plain qs" and w: "wired i"
    and vs: "set vs \<subseteq> set (map data_value (items d))"
    and a: "a \<in> set (map data_value (items d))"
    and p: "list_all css_plain (a # vs)"
  from a have as: "set [a] \<subseteq> set (map data_value (items d))" by simp
  from p have pv: "list_all css_plain vs" and pa: "list_all css_plain [a]" by simp_all
  have q1: "setValue qs (Many (map Some vs)) (i, d) = setValue plain_engine (Many (map Some vs)) (i, d)"
    using pv by (intro setValue_standard [OF s]) (auto simp: list_all_iff)
  have q2: "setValue qs (Many [Some a]) (i, d) = setValue plain_engine (Many [Some a]) (i, d)"
    using pa by (intro setValue_standard [OF s]) auto
  have q3: "setValue qs (One (Some a)) (i, d) = setValue plain_engine (One (Some a)) (i, d)"
    using pa by (intro setValue_standard [OF s]) auto
  have q4: "setValue plain_engine (One (Some a)) (i, d) = setValue plain_engine (Many [Some a]) (i, d)"
    by (simp add: setValue_def)
  from setValue_matching [OF w vs pv] obtain c where
    c: "setValue plain_engine (Many (map Some vs)) (i, d) = Inr c"
       "selectedValues (fst c) = fold set_add vs []" "opt_multiple (fst c) = opt_multiple i"
    by blast
  from setValue_matching [OF w as pa] obtain c1 where
    c1: "setValue plain_engine (Many [Some a]) (i, d) = Inr c1"
       "selectedValues (fst c1) = [a]" "opt_multiple (fst c1) = opt_multiple i"
    by (auto simp: set_add_def)
  have m: "opt_multiple i \<Longrightarrow>
      value_after (setValue qs (Many (map Some vs)) (i, d)) = Inr (Multi (fold set_add vs []))"
    by (simp add: q1 c value_after_def getValue_def)
  have m1: "opt_multiple i \<Longrightarrow> value_after (setValue qs (One (Some a)) (i, d)) = Inr (Multi [a])"
    by (simp add: q3 q4 c1 value_after_def getValue_def)
  have s1: "\<not> opt_multiple i \<Longrightarrow>
      value_after (setValue qs (One (Some a)) (i, d)) = Inr (Single (Some a))"
    by (simp add: q3 q4 c1 value_after_def getValue_def)
  have s2: "\<not> opt_multiple i \<Longrightarrow>
      value_after (setValue qs (Many [Some a]) (i, d)) = Inr (Single (Some a))"
    by (simp add: q2 c1 value_after_def getValue_def)
  have sm: "same_value (Multi (fold set_add vs [])) (Many (map Some vs))"
    by (simp add: set_fold_set_add)
  have sm1: "same_value (Multi [a]) (One (Some a))"
    by simp
  show "(opt_multiple i \<longrightarrow>
        (\<exists>g. value_after (setValue qs (Many (map Some vs)) (i, d)) = Inr g \<and>
             same_value g (Many (map Some vs))) \<and>
        (\<exists>g. value_after (setValue qs (One (Some a)) (i, d)) = Inr g \<and>
             same_value g (One (Some a)))) \<and>
     (\<not> opt_multiple i \<longrightarrow>
        value_after (setValue qs (One (Some a)) (i, d)) = Inr (Single (Some a)) \<and>
        value_after (setValue qs (Many [Some a]) (i, d)) = Inr (Single (Some a)))"
    using m m1 s1 s2 sm sm1 by blast
qed

theorem setValue_getValue_round_trip_witness:
  "standard_on_plain plain_engine \<and>
   wired (fst multi_demo) \<and> wired (fst single_demo) \<and>
   set [''c'', ''a''] \<subseteq> set (map data_value (items (snd multi_demo))) \<and>
   ''b'' \<in> set (map data_value (items (snd multi_demo))) \<and>
   list_all css_plain [''b'', ''c'', ''a''] \<and>
   opt_multiple (fst multi_demo) \<and> \<not> opt_multiple (fst single_demo) \<and>
   ''b'' \<in> set (map data_value (items (snd single_demo))) \<and>
   value_after (setValue plain_engine (Many [Some ''c'', Some ''a'']) multi_demo) =
     Inr (Multi [''c'', ''a'']) \<and>
   (\<exists>g. value_after (setValue plain_engine (Many (map Some [''c'', ''a''])) multi_demo) = Inr g \<and>
        same_value g (Many (map Some [''c'', ''a'']))) \<and>
   value_after (setValue plain_engine (One (Some ''b'')) single_demo) = Inr (Single (Some ''b''))"
proof -
  have s: "standard_on_plain plain_engine"
    by (simp add: standard_on_plain_def plain_engine_def)
  have f: "wired (fst multi_demo) \<and> wired (fst single_demo) \<and>
    set [''c'', ''a''] \<subseteq> set (map data_value (items (snd multi_demo))) \<and>
    ''b'' \<in> set (map data_value (items (snd multi_demo))) \<and>
    list_all css_plain [''b'', ''c'', ''a''] \<and>
    opt_multiple (fst multi_demo) \<and> \<not> opt_multiple (fst single_demo) \<and>
    ''b'' \<in> set (map data_value (items (snd single_demo))) \<and>
    set [] \<subseteq> set (map data_value (items (snd single_demo))) \<and> list_all css_plain [''b''] \<and>
    value_after (setValue plain_engine (Many [Some ''c'', Some ''a'']) multi_demo) =
      Inr (Multi [''c'', ''a''])"
    by code_simp
  have md: "multi_demo = (fst multi_demo, snd multi_demo)" and
    sd: "single_demo = (fst single_demo, snd single_demo)"
    by simp_all
  from s f setValue_getValue_round_trip
    [of plain_engine "fst multi_demo" "[''c'', ''a'']" "snd multi_demo" "''b''"]
  have m: "\<exists>g. value_after (setValue plain_engine (Many (map Some [''c'', ''a'']))
        (fst multi_demo, snd multi_demo)) = Inr g \<and>
        same_value g (Many (map Some [''c'', ''a'']))"
    by blast
  from s f setValue_getValue_round_trip
    [of plain_engine "fst single_demo" "[]" "snd single_demo" "''b''"]
  have si: "value_after (setValue plain_engine (One (Some ''b''))
      (fst single_demo, snd single_demo)) = Inr (Single (Some ''b''))"
    by simp
  from m have m': "\<exists>g. value_after (setValue plain_engine (Many (map Some [''c'', ''a''])) multi_demo) = Inr g \<and>
        same_value g (Many (map Some [''c'', ''a'']))"
    using md by simp
  from si have si': "value_after (setValue plain_engine (One (Some ''b'')) single_demo) =
      Inr (Single (Some ''b''))"
    using sd by simp
  from s f m' si' show ?thesis by blast
qed

section \<open>Destroying twice\<close>

lemma removeAll_twice:
  "removeAll b (removeAll a (removeAll b (removeAll a xs))) = removeAll b (removeAll a xs)"
  by (induction xs) auto

lemma destroy_fst: "fst (destroy i pg) = i\<lparr>listeners := []\<rparr>"
  by (simp add: destroy_def Let_def)

lemma destroy_again:
  "destroy (fst (destroy i pg)) (snd (destroy i pg)) =
     (fst (destroy i pg), note_destroy (element i) (snd (destroy i pg)))"
  by (simp add: destroy_def Let_def note_destroy_def removeAll_twice)

lemma destroy_count:
  "count_list (observed (node_of (snd (destroy i pg)) (element i))) SelectboxDestroy =
     count_list (observed (node_of pg (element i))) SelectboxDestroy + 1"
  by (simp add: destroy_def Let_def)

lemma api_destroy_twice:
  assumes "instances pg e = Some i" "element i = e"
  shows "api_destroy (Some e) (api_destroy (Some e) pg) = api_destroy (Some e) pg"
proof -
  have "instances (snd (destroy i pg)) e = None"
    using assms(2) by (simp add: destroy_def Let_def)
  then show ?thesis
    using assms(1) by (simp add: api_destroy_def getInstance_def)
qed

text \<open>
  C1, as the claim states it, fails: \<^verbatim>\<open>destroy()\<close> has no guard, so a second call on the
  same object dispatches \<^verbatim>\<open>selectbox:destroy\<close> a second time.
\<close>

theorem destroy_twice_two_events:
  "instances demo_live_page 0 = Some demo_instance \<and>
   element demo_instance = 0 \<and>
   count_list (observed (node_of demo_live_page 0)) SelectboxDestroy = 0 \<and>
   count_list (observed (node_of (snd (destroy demo_instance demo_live_page)) 0))
     SelectboxDestroy = 1 \<and>
   instances (snd (destroy demo_instance demo_live_page)) 0 = None \<and>
   count_list
     (observed (node_of (snd (destroy (fst (destroy demo_instance demo_live_page))
                           (snd (destroy demo_instance demo_live_page)))) 0))
     SelectboxDestroy = 2"
  by code_simp

text \<open>
  C1, amended. A second \<^verbatim>\<open>destroy()\<close> on the same object changes nothing (listeners,
  marker, registry and \<^verbatim>\<open>document\<close> listeners stay as the first call left them) except
  that it dispatches one more \<^verbatim>\<open>selectbox:destroy\<close>: every call dispatches one. Through
  the registry, \<^verbatim>\<open>templUI.selectbox.destroy(selector)\<close> finds no instance the second time
  and does nothing, so that way the event fires once.
\<close>

theorem destroy_again_only_notifies:
  "destroy (fst (destroy i pg)) (snd (destroy i pg)) =
     (fst (destroy i pg), note_destroy (element i) (snd (destroy i pg))) \<and>
   count_list (observed (node_of (snd (destroy i pg)) (element i))) SelectboxDestroy =
     count_list (observed (node_of pg (element i))) SelectboxDestroy + 1 \<and>
   count_list
     (observed (node_of (snd (destroy (fst (destroy i pg)) (snd (destroy i pg)))) (element i)))
     SelectboxDestroy =
     count_list (observed (node_of pg (element i))) SelectboxDestroy + 2 \<and>
   (instances pg e = Some i \<and> element i = e \<longrightarrow>
      api_destroy (Some e) (api_destroy (Some e) pg) = api_destroy (Some e) pg \<and>
      count_list (observed (node_of (api_destroy (Some e) (api_destroy (Some e) pg)) e))
        SelectboxDestroy =
        count_list (observed (node_of pg e)) SelectboxDestroy + 1)"
proof -
  have two: "count_list
     (observed (node_of (snd (destroy (fst (destroy i pg)) (snd (destroy i pg)))) (element i)))
     SelectboxDestroy =
     count_list (observed (node_of pg (element i))) SelectboxDestroy + 2"
    unfolding destroy_again using destroy_count [of i pg]
    by (simp add: note_destroy_def)
  have api: "instances pg e = Some i \<and> element i = e \<longrightarrow>
      api_destroy (Some e) (api_destroy (Some e) pg) = api_destroy (Some e) pg \<and>
      count_list (observed (node_of (api_destroy (Some e) (api_destroy (Some e) pg)) e))
        SelectboxDestroy =
        count_list (observed (node_of pg e)) SelectboxDestroy + 1"
  proof
    assume a: "instances pg e = Some i \<and> element i = e"
    then have tw: "api_destroy (Some e) (api_destroy (Some e) pg) = api_destroy (Some e) pg"
      using api_destroy_twice [of pg e i] by blast
    from a have "api_destroy (Some e) pg = snd (destroy i pg)"
      by (simp add: api_destroy_def getInstance_def)
    with a destroy_count [of i pg] tw show
      "api_destroy (Some e) (api_destroy (Some e) pg) = api_destroy (Some e) pg \<and>
       count_list (observed (node_of (api_destroy (Some e) (api_destroy (Some e) pg)) e))
        SelectboxDestroy =
        count_list (observed (node_of pg e)) SelectboxDestroy + 1"
      by simp
  qed
  from destroy_again [of i pg] destroy_count [of i pg] two api show ?thesis by blast
qed

theorem destroy_again_only_notifies_witness:
  "instances demo_live_page 0 = Some demo_instance \<and> element demo_instance = 0 \<and>
   api_destroy (Some 0) (api_destroy (Some 0) demo_live_page) =
     api_destroy (Some 0) demo_live_page \<and>
   count_list (observed (node_of demo_live_page 0)) SelectboxDestroy = 0 \<and>
   count_list (observed (node_of (api_destroy (Some 0) (api_destroy (Some 0) demo_live_page)) 0))
     SelectboxDestroy = 1"
proof -
  have a: "instances demo_live_page 0 = Some demo_instance \<and> element demo_instance = 0 \<and>
    count_list (observed (node_of demo_live_page 0)) SelectboxDestroy = 0"
    by code_simp
  note T = destroy_again_only_notifies [of demo_instance demo_live_page 0]
  from a T have b: "api_destroy (Some 0) (api_destroy (Some 0) demo_live_page) =
      api_destroy (Some 0) demo_live_page"
    by blast
  from a T have c: "count_list
      (observed (node_of (api_destroy (Some 0) (api_destroy (Some 0) demo_live_page)) 0))
      SelectboxDestroy = count_list (observed (node_of demo_live_page 0)) SelectboxDestroy + 1"
    by blast
  from a c have c': "count_list
      (observed (node_of (api_destroy (Some 0) (api_destroy (Some 0) demo_live_page)) 0))
      SelectboxDestroy = 1"
    by simp
  from a b c' show ?thesis by blast
qed

lemma construct_instances: "instances (snd (construct e pg)) = instances pg"
  by (simp add: construct_def Let_def split: prod.splits)

lemma init_element_registered:
  "instances (init_element e pg) x \<noteq> None \<longleftrightarrow> x = e \<or> instances pg x \<noteq> None"
proof (cases "instances pg e")
  case None
  obtain i pg1 where c: "construct e pg = (i, pg1)" by (cases "construct e pg")
  with construct_instances [of e pg] have "instances pg1 = instances pg" by simp
  with None c show ?thesis by (auto simp: init_element_def)
next
  case (Some i)
  then show ?thesis by (auto simp: init_element_def)
qed

lemma api_init_registered:
  "instances (api_init els pg) x \<noteq> None \<longleftrightarrow> x \<in> set els \<or> instances pg x \<noteq> None"
  unfolding api_init_def
proof (induction els arbitrary: pg)
  case Nil
  then show ?case by simp
next
  case (Cons e els)
  show ?case
    using Cons.IH [of "init_element e pg"] init_element_registered [of e pg x]
    by auto
qed

lemma api_init_skip:
  "\<forall>e \<in> set els. instances pg e \<noteq> None \<Longrightarrow> api_init els pg = pg"
  unfolding api_init_def
  by (induction els) (simp_all add: init_element_def)

lemma api_init_again:
  assumes "set els' \<subseteq> set els"
  shows "api_init els' (api_init els pg) = api_init els pg"
proof (rule api_init_skip)
  show "\<forall>e \<in> set els'. instances (api_init els pg) e \<noteq> None"
    using assms api_init_registered [of els pg] by blast
qed

lemma api_init_Cons: "api_init (e # els) pg = api_init els (api_init [e] pg)"
  by (simp add: api_init_def)

lemma construct_incomplete:
  assumes "\<not> complete (node_of pg e)"
  shows "construct e pg =
     ((new_SelectBox (next_uid pg) e)
        \<lparr>triggerButton := trigger_found (node_of pg e),
         content := trigger_found (node_of pg e) \<and> content_found (node_of pg e),
         valueEl := trigger_found (node_of pg e) \<and> valueEl_found (node_of pg e),
         hiddenInput := trigger_found (node_of pg e) \<and> hiddenInput_found (node_of pg e)\<rparr>,
      pg\<lparr>next_uid := Suc (next_uid pg),
         node_of := (node_of pg)(e := (node_of pg e)\<lparr>initialized := True\<rparr>),
         console := console pg @
           [if trigger_found (node_of pg e) then ''SelectBox: Missing required elements''
            else ''SelectBox: Trigger button not found'']\<rparr>)"
  using assms by (auto simp: construct_def Let_def complete_def new_SelectBox_def)

section \<open>Initialising twice, and elements that cannot be initialised\<close>

lemma initStepper_marks: "sn_initialized (initStepper n)"
  by (simp add: initStepper_def Let_def)

lemma initStepper_skip: "sn_initialized n \<Longrightarrow> initStepper n = n"
  by (simp add: initStepper_def)

lemma fold_init_stepper_marked:
  "sn_initialized (fold init_stepper_at es sp e) \<longleftrightarrow> e \<in> set es \<or> sn_initialized (sp e)"
proof (induction es arbitrary: sp)
  case Nil
  then show ?case by simp
next
  case (Cons x es)
  show ?case
    using Cons.IH [of "init_stepper_at x sp"] initStepper_marks [of "sp x"]
    by (auto simp: init_stepper_at_def)
qed

lemma stepper_init_marked:
  "sn_initialized (stepper_init root steppers sp e) \<longleftrightarrow>
     Some e = root \<or> e \<in> set steppers \<or> sn_initialized (sp e)"
proof (cases root)
  case None
  then show ?thesis
    by (auto simp: stepper_init_def fold_init_stepper_marked)
next
  case (Some r)
  then show ?thesis
    using initStepper_marks [of "sp r"]
    by (auto simp: stepper_init_def Let_def fold_init_stepper_marked init_stepper_at_def)
qed

lemma stepper_init_again:
  "stepper_init root steppers (stepper_init root steppers sp) = stepper_init root steppers sp"
proof -
  define sp' where "sp' = stepper_init root steppers sp"
  have m: "\<And>e. Some e = root \<or> e \<in> set steppers \<Longrightarrow> sn_initialized (sp' e)"
    unfolding sp'_def by (auto simp: stepper_init_marked)
  have r: "(case root of None \<Rightarrow> sp' | Some r \<Rightarrow> init_stepper_at r sp') = sp'"
  proof (cases root)
    case None
    then show ?thesis by simp
  next
    case (Some r)
    with m [of r] have "initStepper (sp' r) = sp' r" by (simp add: initStepper_skip)
    with Some show ?thesis by (simp add: init_stepper_at_def)
  qed
  have f: "filter (\<lambda>e. \<not> sn_initialized (sp' e)) steppers = []"
    using m by (simp add: filter_empty_conv)
  show ?thesis
    unfolding sp'_def [symmetric] by (simp add: stepper_init_def [of root steppers sp'] r f)
qed

definition demo_stepper_page :: "elem \<Rightarrow> stepper_node" where
  "demo_stepper_page e =
     \<lparr>sn_initialized = False, sn_stepperId = Some ''wizard'', sn_live = False,
      sn_state = demo_stepper\<rparr>"

lemma construct_next_uid: "next_uid (snd (construct e pg)) = Suc (next_uid pg)"
  by (simp add: construct_def Let_def split: prod.splits)

lemma init_element_next_uid:
  "next_uid (init_element e pg) =
     (if instances pg e = None then Suc (next_uid pg) else next_uid pg)"
  using construct_next_uid [of e pg]
  by (auto simp: init_element_def split: prod.splits)

lemma api_init_next_uid:
  "distinct els \<Longrightarrow> \<forall>e \<in> set els. instances pg e = None \<Longrightarrow>
   next_uid (api_init els pg) = next_uid pg + length els"
  unfolding api_init_def
proof (induction els arbitrary: pg)
  case Nil
  then show ?case by simp
next
  case (Cons e els)
  have "\<forall>x \<in> set els. instances (init_element e pg) x = None"
  proof
    fix x
    assume x: "x \<in> set els"
    with Cons.prems have "x \<noteq> e" "instances pg x = None" by auto
    with init_element_registered [of e pg x] show "instances (init_element e pg) x = None"
      by simp
  qed
  with Cons.IH [of "init_element e pg"] Cons.prems show ?case
    by (simp add: init_element_next_uid)
qed

text \<open>What the first \<^verbatim>\<open>init\<close> does to an element.\<close>

lemma initStepper_idem: "initStepper (initStepper n) = initStepper n"
  by (simp add: initStepper_skip initStepper_marks)

lemma fold_init_stepper_at:
  "fold init_stepper_at es sp = (\<lambda>x. if x \<in> set es then initStepper (sp x) else sp x)"
proof (induction es arbitrary: sp)
  case Nil
  then show ?case by simp
next
  case (Cons e es)
  show ?case
    unfolding fold_simps Cons.IH [of "init_stepper_at e sp"]
    by (auto simp: fun_eq_iff init_stepper_at_def initStepper_idem)
qed

lemma stepper_init_char:
  "stepper_init root steppers sp =
     (\<lambda>x. if Some x = root \<or> x \<in> set steppers then initStepper (sp x) else sp x)"
proof (cases root)
  case None
  then show ?thesis
    by (auto simp: stepper_init_def fold_init_stepper_at fun_eq_iff initStepper_skip)
next
  case (Some r)
  then show ?thesis
    by (auto simp: stepper_init_def Let_def fold_init_stepper_at fun_eq_iff init_stepper_at_def
        initStepper_skip initStepper_marks initStepper_idem)
qed

lemma init_parts_initialized: "initialized (snd (init_parts c)) = initialized (snd c)"
  by (cases c)
    (simp add: init_parts_def initializeSelection_def setupEventHandlers_def
      setupResetFunctionality_def addEventListener_def dispatch_def updateHiddenInput_def
      updateDisplay_def updateResetButtonVisibility_def Let_def split: prod.splits)

lemma init_parts_keeps_marker:
  "init_parts (i, d) = (i2, d2) \<Longrightarrow> initialized d2 = initialized d"
  using init_parts_initialized [of "(i, d)"] by simp

lemma construct_marks: "initialized (node_of (snd (construct e pg)) e)"
  by (auto simp: construct_def Let_def split: prod.splits dest: init_parts_keeps_marker)

lemma init_element_fresh:
  assumes "instances pg e = None"
  shows "init_element e pg =
     (snd (construct e pg))\<lparr>instances := (instances pg)(e \<mapsto> fst (construct e pg))\<rparr>"
proof -
  obtain i pg1 where c: "construct e pg = (i, pg1)" by (cases "construct e pg")
  with construct_instances [of e pg] have "instances pg1 = instances pg" by simp
  with assms c show ?thesis by (simp add: init_element_def)
qed

text \<open>
  C9, as the claim states it, fails for the selection control: its \<^verbatim>\<open>init\<close> asks the
  registry only and never reads the marker. Element 0 of the page carries the marker and
  has no instance; \<^verbatim>\<open>init\<close> constructs it all the same: an object is created and
  registered, the init event is dispatched and the document listeners are added.
\<close>

theorem marked_unregistered_element_constructed:
  "initialized (node_of demo_marked_page 0) \<and>
   map_option uid (instances demo_marked_page 0) = None \<and>
   observed (node_of demo_marked_page 0) = [] \<and>
   next_uid demo_marked_page = 0 \<and>
   next_uid (api_init [0] demo_marked_page) = 1 \<and>
   map_option uid (instances (api_init [0] demo_marked_page) 0) = Some 0 \<and>
   observed (node_of (api_init [0] demo_marked_page) 0) = [SelectboxInit] \<and>
   document_click (api_init [0] demo_marked_page) \<noteq> document_click demo_marked_page"
  by code_simp

text \<open>
  C9, amended. The selection control is guarded by the registry, the stepper by the
  marker. A second \<^verbatim>\<open>init\<close> over elements the first one covered returns the page as it
  is: nothing is constructed, logged or dispatched. After \<^verbatim>\<open>init\<close> every element of the
  scan has its instance in the registry, and a scan over distinct unregistered elements
  constructs exactly one object for each. An element that is registered is skipped; an
  element that is not registered is constructed and registered, marked or not, and
  carries the marker afterwards. The stepper: \<^verbatim>\<open>init\<close> applies \<^verbatim>\<open>initStepper\<close> once to
  the root and to each stepper of the scan and leaves every other element alone; a
  second \<^verbatim>\<open>init\<close> over the same root changes nothing; \<^verbatim>\<open>initStepper\<close> skips an
  element that carries the marker; on an unmarked element with a stepper id it sets the
  marker, sets up the closure, renders the current step and dispatches one
  \<^verbatim>\<open>stepper:change\<close>; on an unmarked element without a stepper id it sets the marker
  only.
\<close>

theorem init_idempotent:
  "(set els' \<subseteq> set els \<longrightarrow> api_init els' (api_init els pg) = api_init els pg) \<and>
   (\<forall>e \<in> set els. instances (api_init els pg) e \<noteq> None) \<and>
   (distinct els \<and> (\<forall>e \<in> set els. instances pg e = None) \<longrightarrow>
      next_uid (api_init els pg) = next_uid pg + length els) \<and>
   (instances pg e \<noteq> None \<longrightarrow> init_element e pg = pg) \<and>
   (instances pg e = None \<longrightarrow>
      init_element e pg =
        (snd (construct e pg))\<lparr>instances := (instances pg)(e \<mapsto> fst (construct e pg))\<rparr> \<and>
      next_uid (init_element e pg) = Suc (next_uid pg) \<and>
      initialized (node_of (init_element e pg) e)) \<and>
   stepper_init root steppers (stepper_init root steppers sp) = stepper_init root steppers sp \<and>
   stepper_init root steppers sp =
     (\<lambda>x. if Some x = root \<or> x \<in> set steppers then initStepper (sp x) else sp x) \<and>
   (sn_initialized n \<longrightarrow> initStepper n = n) \<and>
   (\<not> sn_initialized n \<and> truthy (sn_stepperId n) \<longrightarrow>
      sn_initialized (initStepper n) \<and> sn_live (initStepper n) \<and>
      sn_state (initStepper n) =
        updateStepStates
          ((sn_state n)\<lparr>currentStep :=
             num_or_1 (case data_currentStep (sn_state n) of None \<Rightarrow> NaN | Some k \<Rightarrow> k)\<rparr>) \<and>
      dispatched (sn_state (initStepper n)) =
        dispatched (sn_state n) @
        [StepperChange
           (num_or_1 (case data_currentStep (sn_state n) of None \<Rightarrow> NaN | Some k \<Rightarrow> k))]) \<and>
   (\<not> sn_initialized n \<and> \<not> truthy (sn_stepperId n) \<longrightarrow>
      initStepper n = n\<lparr>sn_initialized := True\<rparr>)"
proof -
  have a: "set els' \<subseteq> set els \<longrightarrow> api_init els' (api_init els pg) = api_init els pg"
    using api_init_again [of els' els pg] by blast
  have b: "\<forall>e \<in> set els. instances (api_init els pg) e \<noteq> None"
    using api_init_registered [of els pg] by blast
  have c: "distinct els \<and> (\<forall>e \<in> set els. instances pg e = None) \<longrightarrow>
      next_uid (api_init els pg) = next_uid pg + length els"
    using api_init_next_uid [of els pg] by blast
  have d: "instances pg e \<noteq> None \<longrightarrow> init_element e pg = pg"
    by (simp add: init_element_def)
  have d': "instances pg e = None \<longrightarrow>
      init_element e pg =
        (snd (construct e pg))\<lparr>instances := (instances pg)(e \<mapsto> fst (construct e pg))\<rparr> \<and>
      next_uid (init_element e pg) = Suc (next_uid pg) \<and>
      initialized (node_of (init_element e pg) e)"
  proof
    assume n: "instances pg e = None"
    from n construct_marks [of e pg] show "init_element e pg =
        (snd (construct e pg))\<lparr>instances := (instances pg)(e \<mapsto> fst (construct e pg))\<rparr> \<and>
      next_uid (init_element e pg) = Suc (next_uid pg) \<and>
      initialized (node_of (init_element e pg) e)"
      by (simp add: init_element_fresh construct_next_uid)
  qed
  have f: "sn_initialized n \<longrightarrow> initStepper n = n"
    by (simp add: initStepper_skip)
  have g: "\<not> sn_initialized n \<and> truthy (sn_stepperId n) \<longrightarrow>
      sn_initialized (initStepper n) \<and> sn_live (initStepper n) \<and>
      sn_state (initStepper n) =
        updateStepStates
          ((sn_state n)\<lparr>currentStep :=
             num_or_1 (case data_currentStep (sn_state n) of None \<Rightarrow> NaN | Some k \<Rightarrow> k)\<rparr>) \<and>
      dispatched (sn_state (initStepper n)) =
        dispatched (sn_state n) @
        [StepperChange
           (num_or_1 (case data_currentStep (sn_state n) of None \<Rightarrow> NaN | Some k \<Rightarrow> k))]"
    by (simp add: initStepper_def Let_def updateStepStates_def)
  have h: "\<not> sn_initialized n \<and> \<not> truthy (sn_stepperId n) \<longrightarrow>
      initStepper n = n\<lparr>sn_initialized := True\<rparr>"
    by (simp add: initStepper_def Let_def)
  from a b c d d' f g h stepper_init_again [of root steppers sp]
    stepper_init_char [of root steppers sp]
  show ?thesis by blast
qed

theorem init_idempotent_witness:
  "set [1, 0] \<subseteq> set [0, 1, 2 :: nat] \<and>
   api_init [1, 0] (api_init [0, 1, 2] demo_page) = api_init [0, 1, 2] demo_page \<and>
   distinct [0, 1, 2 :: nat] \<and>
   instances demo_page 0 = None \<and> instances demo_page 1 = None \<and>
   instances demo_page 2 = None \<and>
   next_uid (api_init [0, 1, 2] demo_page) = 3 \<and>
   instances (api_init [0, 1, 2] demo_page) 1 \<noteq> None \<and>
   init_element 1 (api_init [0, 1, 2] demo_page) = api_init [0, 1, 2] demo_page \<and>
   next_uid (init_element 0 demo_page) = 1 \<and>
   initialized (node_of (init_element 0 demo_page) 0) \<and>
   \<not> sn_initialized (demo_stepper_page 0) \<and> truthy (sn_stepperId (demo_stepper_page 0)) \<and>
   sn_live (initStepper (demo_stepper_page 0)) \<and>
   dispatched (sn_state (initStepper (demo_stepper_page 0))) = [StepperChange (Num 1)] \<and>
   stepper_init None [0] demo_stepper_page 0 = initStepper (demo_stepper_page 0) \<and>
   stepper_init None [0] demo_stepper_page 1 = demo_stepper_page 1 \<and>
   \<not> truthy (sn_stepperId ((demo_stepper_page 0)\<lparr>sn_stepperId := None\<rparr>)) \<and>
   initStepper ((demo_stepper_page 0)\<lparr>sn_stepperId := None\<rparr>) =
     (demo_stepper_page 0)\<lparr>sn_stepperId := None, sn_initialized := True\<rparr> \<and>
   sn_initialized (stepper_init None [0] demo_stepper_page 0) \<and>
   initStepper (stepper_init None [0] demo_stepper_page 0) =
     stepper_init None [0] demo_stepper_page 0 \<and>
   stepper_init None [0] (stepper_init None [0] demo_stepper_page) =
     stepper_init None [0] demo_stepper_page"
proof -
  note T = init_idempotent [of "[1, 0]" "[0, 1, 2]" demo_page 0 None "[0]" demo_stepper_page
      "demo_stepper_page 0"]
  note U = init_idempotent [of "[]" "[]" "api_init [0, 1, 2] demo_page" 1 None "[]"
      demo_stepper_page "stepper_init None [0] demo_stepper_page 0"]
  note V = init_idempotent [of "[]" "[]" demo_page 0 None "[]" demo_stepper_page
      "(demo_stepper_page 0)\<lparr>sn_stepperId := None\<rparr>"]
  note T5 = T [THEN conjunct2, THEN conjunct2, THEN conjunct2, THEN conjunct2, THEN conjunct1]
  note T7 = T [THEN conjunct2, THEN conjunct2, THEN conjunct2, THEN conjunct2, THEN conjunct2,
      THEN conjunct2, THEN conjunct1]
  note T9 = T [THEN conjunct2, THEN conjunct2, THEN conjunct2, THEN conjunct2, THEN conjunct2,
      THEN conjunct2, THEN conjunct2, THEN conjunct2, THEN conjunct1]
  note V10 = V [THEN conjunct2, THEN conjunct2, THEN conjunct2, THEN conjunct2, THEN conjunct2,
      THEN conjunct2, THEN conjunct2, THEN conjunct2, THEN conjunct2]
  have s: "set [1, 0] \<subseteq> set [0, 1, 2 :: nat]" by simp
  have d: "distinct [0, 1, 2 :: nat]" by simp
  have n: "instances demo_page 0 = None \<and> instances demo_page 1 = None \<and>
           instances demo_page 2 = None"
    by (simp add: demo_page_def)
  have m: "sn_initialized (stepper_init None [0] demo_stepper_page 0)"
    by (simp add: stepper_init_marked)
  have p: "\<not> sn_initialized (demo_stepper_page 0) \<and> truthy (sn_stepperId (demo_stepper_page 0))"
    by (simp add: demo_stepper_page_def truthy_def)
  have q: "\<not> sn_initialized ((demo_stepper_page 0)\<lparr>sn_stepperId := None\<rparr>) \<and>
      \<not> truthy (sn_stepperId ((demo_stepper_page 0)\<lparr>sn_stepperId := None\<rparr>))"
    by (simp add: demo_stepper_page_def truthy_def)
  from T s have a: "api_init [1, 0] (api_init [0, 1, 2] demo_page) = api_init [0, 1, 2] demo_page"
    by blast
  from T d n have "next_uid (api_init [0, 1, 2] demo_page) = next_uid demo_page + length [0, 1, 2 :: nat]"
    by simp
  then have u: "next_uid (api_init [0, 1, 2] demo_page) = 3"
    by (simp add: demo_page_def)
  from T have r: "instances (api_init [0, 1, 2] demo_page) 1 \<noteq> None"
    by simp
  from U r have i: "init_element 1 (api_init [0, 1, 2] demo_page) = api_init [0, 1, 2] demo_page"
    by blast
  from n have n0: "instances demo_page 0 = None"
    by (rule conjunct1)
  note F = T5 [THEN mp, OF n0]
  note G = T9 [THEN mp, OF p]
  from F have "next_uid (init_element 0 demo_page) = Suc (next_uid demo_page)"
    by (rule conjunct1 [OF conjunct2])
  then have v: "next_uid (init_element 0 demo_page) = 1"
    by (simp add: demo_page_def)
  from F have w: "initialized (node_of (init_element 0 demo_page) 0)"
    by (rule conjunct2 [OF conjunct2])
  from G have x: "sn_live (initStepper (demo_stepper_page 0))"
    by (rule conjunct1 [OF conjunct2])
  from G have "dispatched (sn_state (initStepper (demo_stepper_page 0))) =
      dispatched (sn_state (demo_stepper_page 0)) @
      [StepperChange (num_or_1 (case data_currentStep (sn_state (demo_stepper_page 0)) of
          None \<Rightarrow> NaN | Some k \<Rightarrow> k))]"
    by (rule conjunct2 [OF conjunct2 [OF conjunct2]])
  moreover have "dispatched (sn_state (demo_stepper_page 0)) @
      [StepperChange (num_or_1 (case data_currentStep (sn_state (demo_stepper_page 0)) of
          None \<Rightarrow> NaN | Some k \<Rightarrow> k))] = [StepperChange (Num 1)]"
    by code_simp
  ultimately have y: "dispatched (sn_state (initStepper (demo_stepper_page 0))) =
      [StepperChange (Num 1)]"
    by simp
  from T7 have ch: "stepper_init None [0] demo_stepper_page =
      (\<lambda>x. if Some x = None \<or> x \<in> set [0] then initStepper (demo_stepper_page x)
           else demo_stepper_page x)"
    .
  have z0: "stepper_init None [0] demo_stepper_page 0 = initStepper (demo_stepper_page 0)"
    unfolding ch by simp
  have z1: "stepper_init None [0] demo_stepper_page 1 = demo_stepper_page 1"
    unfolding ch by simp
  from V10 [THEN mp, OF q]
  have o: "initStepper ((demo_stepper_page 0)\<lparr>sn_stepperId := None\<rparr>) =
     (demo_stepper_page 0)\<lparr>sn_stepperId := None, sn_initialized := True\<rparr>"
    .
  from U m have k: "initStepper (stepper_init None [0] demo_stepper_page 0) =
     stepper_init None [0] demo_stepper_page 0"
    by blast
  from T have l: "stepper_init None [0] (stepper_init None [0] demo_stepper_page) =
     stepper_init None [0] demo_stepper_page"
    by blast
  from s a d n u r i v w p x y z0 z1 q o m k l show ?thesis by blast
qed

text \<open>
  C2, as the claim states it, fails: the marker is set before the sub-elements are
  looked up, and \<^verbatim>\<open>init\<close> registers whatever the constructor returns; after the aborted
  construction the element is marked and an instance for it is in the registry.
\<close>

theorem incomplete_element_marked_and_registered:
  "instances demo_page 2 = None \<and>
   \<not> complete (node_of demo_page 2) \<and>
   initialized (node_of (api_init [2] demo_page) 2) \<and>
   instances (api_init [2] demo_page) 2 \<noteq> None \<and>
   console (api_init [2] demo_page) = [''SelectBox: Missing required elements'']"
  by code_simp

text \<open>
  C2, amended. For an unregistered element that lacks a required sub-element,
  \<^verbatim>\<open>init\<close> logs one diagnostic and the construction stops there: no listener is
  attached, no event is dispatched, nothing is selected. The element does get the
  marker, and the inert instance is registered. The scan goes on: every other element
  of the scan ends up registered.
\<close>

theorem incomplete_element_inert:
  "(instances pg e = None \<and> \<not> complete (node_of pg e) \<longrightarrow>
      (\<exists>i. api_init [e] pg =
              pg\<lparr>next_uid := Suc (next_uid pg),
                 node_of := (node_of pg)(e := (node_of pg e)\<lparr>initialized := True\<rparr>),
                 console := console pg @
                   [if trigger_found (node_of pg e) then ''SelectBox: Missing required elements''
                    else ''SelectBox: Trigger button not found''],
                 instances := (instances pg)(e \<mapsto> i)\<rparr> \<and>
            element i = e \<and> listeners i = [] \<and> selectedValues i = [] \<and>
            \<not> itemClickHandler i \<and> \<not> externalResetHandler i \<and>
            \<not> (content i \<and> valueEl i \<and> hiddenInput i))) \<and>
   api_init (e # els) pg = api_init els (api_init [e] pg) \<and>
   (\<forall>x \<in> set els. instances (api_init (e # els) pg) x \<noteq> None)"
proof -
  have a: "instances pg e = None \<and> \<not> complete (node_of pg e) \<longrightarrow>
      (\<exists>i. api_init [e] pg =
              pg\<lparr>next_uid := Suc (next_uid pg),
                 node_of := (node_of pg)(e := (node_of pg e)\<lparr>initialized := True\<rparr>),
                 console := console pg @
                   [if trigger_found (node_of pg e) then ''SelectBox: Missing required elements''
                    else ''SelectBox: Trigger button not found''],
                 instances := (instances pg)(e \<mapsto> i)\<rparr> \<and>
            element i = e \<and> listeners i = [] \<and> selectedValues i = [] \<and>
            \<not> itemClickHandler i \<and> \<not> externalResetHandler i \<and>
            \<not> (content i \<and> valueEl i \<and> hiddenInput i))"
  proof
    assume h: "instances pg e = None \<and> \<not> complete (node_of pg e)"
    then have inc: "\<not> complete (node_of pg e)" and un: "instances pg e = None" by simp_all
    define i where "i = (new_SelectBox (next_uid pg) e)
        \<lparr>triggerButton := trigger_found (node_of pg e),
         content := trigger_found (node_of pg e) \<and> content_found (node_of pg e),
         valueEl := trigger_found (node_of pg e) \<and> valueEl_found (node_of pg e),
         hiddenInput := trigger_found (node_of pg e) \<and> hiddenInput_found (node_of pg e)\<rparr>"
    have p: "api_init [e] pg =
              pg\<lparr>next_uid := Suc (next_uid pg),
                 node_of := (node_of pg)(e := (node_of pg e)\<lparr>initialized := True\<rparr>),
                 console := console pg @
                   [if trigger_found (node_of pg e) then ''SelectBox: Missing required elements''
                    else ''SelectBox: Trigger button not found''],
                 instances := (instances pg)(e \<mapsto> i)\<rparr>"
      unfolding api_init_def using un
      by (simp add: init_element_def construct_incomplete [OF inc] i_def)
    have q: "element i = e \<and> listeners i = [] \<and> selectedValues i = [] \<and>
            \<not> itemClickHandler i \<and> \<not> externalResetHandler i \<and>
            \<not> (content i \<and> valueEl i \<and> hiddenInput i)"
      using inc by (auto simp: i_def new_SelectBox_def complete_def)
    from p q show "\<exists>i. api_init [e] pg =
              pg\<lparr>next_uid := Suc (next_uid pg),
                 node_of := (node_of pg)(e := (node_of pg e)\<lparr>initialized := True\<rparr>),
                 console := console pg @
                   [if trigger_found (node_of pg e) then ''SelectBox: Missing required elements''
                    else ''SelectBox: Trigger button not found''],
                 instances := (instances pg)(e \<mapsto> i)\<rparr> \<and>
            element i = e \<and> listeners i = [] \<and> selectedValues i = [] \<and>
            \<not> itemClickHandler i \<and> \<not> externalResetHandler i \<and>
            \<not> (content i \<and> valueEl i \<and> hiddenInput i)"
      by blast
  qed
  have b: "\<forall>x \<in> set els. instances (api_init (e # els) pg) x \<noteq> None"
    using api_init_registered [of "e # els" pg] by simp
  from a api_init_Cons [of e els pg] b show ?thesis by blast
qed

theorem incomplete_element_inert_witness:
  "instances demo_page 2 = None \<and> \<not> complete (node_of demo_page 2) \<and>
   observed (node_of (api_init [2] demo_page) 2) = [] \<and>
   attached (node_of (api_init [2] demo_page) 2) = [] \<and>
   document_click (api_init [2] demo_page) = [] \<and>
   api_init [2, 0] demo_page = api_init [0] (api_init [2] demo_page) \<and>
   instances (api_init [2, 0] demo_page) 0 \<noteq> None \<and>
   observed (node_of (api_init [2, 0] demo_page) 0) = [SelectboxInit]"
proof -
  note T = incomplete_element_inert [of demo_page 2 "[0]"]
  have h: "instances demo_page 2 = None \<and> \<not> complete (node_of demo_page 2)"
    by code_simp
  from T h obtain i where p: "api_init [2] demo_page =
      demo_page\<lparr>next_uid := Suc (next_uid demo_page),
         node_of := (node_of demo_page)(2 := (node_of demo_page 2)\<lparr>initialized := True\<rparr>),
         console := console demo_page @
           [if trigger_found (node_of demo_page 2) then ''SelectBox: Missing required elements''
            else ''SelectBox: Trigger button not found''],
         instances := (instances demo_page)(2 \<mapsto> i)\<rparr>"
    by blast
  have o: "observed (node_of (api_init [2] demo_page) 2) = [] \<and>
           attached (node_of (api_init [2] demo_page) 2) = [] \<and>
           document_click (api_init [2] demo_page) = []"
    unfolding p by (simp add: demo_page_def demo_container_def)
  from T have c: "api_init [2, 0] demo_page = api_init [0] (api_init [2] demo_page)"
    by blast
  from T have "\<forall>x \<in> set [0]. instances (api_init [2, 0] demo_page) x \<noteq> None"
    by blast
  then have r: "instances (api_init [2, 0] demo_page) 0 \<noteq> None"
    by simp
  have e: "observed (node_of (api_init [2, 0] demo_page) 0) = [SelectboxInit]"
    by code_simp
  from h o c r e show ?thesis by blast
qed

end
